theory Spec2Isabelle
  imports Complex_Main
begin

section \<open>Data model\<close>

text \<open>
  The model follows \<^verbatim>\<open>battle_simulator.py\<close>. Python integers are \<open>int\<close>, Python
  floats are exact reals (the rounding of IEEE doubles is not modelled), \<^verbatim>\<open>None\<close> is
  \<open>None\<close> of an option type, a raised exception is the \<open>Inl\<close> of a sum.
\<close>

text \<open>The exceptions of the program: \<^verbatim>\<open>HTTPException\<close> from \<^verbatim>\<open>fetch_json\<close> on an upstream
  failure, \<^verbatim>\<open>KeyError\<close> from a loader on a payload that lacks a field, \<^verbatim>\<open>IndexError\<close> from
  \<^verbatim>\<open>poke['types'][0]\<close>, and the three that float arithmetic and \<^verbatim>\<open>int()\<close> raise.\<close>

datatype py_error =
  HTTPException | KeyError | IndexError | OverflowError | ValueError | ZeroDivisionError

text \<open>\<^verbatim>\<open>class Status\<close>: \<^verbatim>\<open>Status.NONE\<close> is \<open>None :: status option\<close>.\<close>

datatype status = Paralysis | Burn | Poison

text \<open>One element of \<^verbatim>\<open>effect_entries\<close>; an absent key reads as the empty string
  (\<^verbatim>\<open>e.get('effect','')\<close>).\<close>

record effect_entry =
  effect :: string
  short_effect :: string

text \<open>The dictionary returned by \<^verbatim>\<open>get_move_data\<close>, restricted to the keys the
  simulator reads (the synthetic \<^verbatim>\<open>struggle\<close> move has no others).\<close>

record move =
  m_name :: string
  m_power :: "int option"
  m_accuracy :: "int option"
  m_type :: string
  m_damage_class :: "string option"
  m_effect_chance :: "int option"
  m_effect_entries :: "effect_entry list"

text \<open>The dictionary returned by \<^verbatim>\<open>get_pokemon_data\<close>; a move reference is kept by
  its name, the only key the simulator reads.\<close>

record pokemon =
  p_name :: string
  p_stats :: "string \<Rightarrow> int option"
  p_types :: "string list"
  p_moves :: "string list"

record battle_request =
  attacker :: string
  defender :: string
  attacker_moves :: "string list option"
  defender_moves :: "string list option"
  level :: "int option"
  max_turns :: "int option"
  random_seed :: "int option"

text \<open>
  A line of the event log. Each constructor stands for one format string of the source
  and carries the values that are formatted into it:
  \<^item> \<open>TurnLine n\<close>: \<^verbatim>\<open>-- Turn {turn} --\<close>
  \<^item> \<open>ParalyzedLine u\<close>: \<^verbatim>\<open>{user_name} is paralyzed and can't move!\<close>
  \<^item> \<open>MissedLine u m\<close>: \<^verbatim>\<open>{user_name} used {move['name']} but it missed!\<close>
  \<^item> \<open>DamageLine u m d x\<close>: \<^verbatim>\<open>{user_name} used {move['name']} -> -{dmg} (effectiveness x{mult})\<close>
  \<^item> \<open>NoDamageLine u m\<close>: \<^verbatim>\<open>{user_name} used {move['name']} (no direct damage in this sim)\<close>
  \<^item> \<open>StatusLine t st\<close>: \<^verbatim>\<open>{target_name} is now {status}!\<close>
  \<^item> \<open>BurnLine n d\<close>: \<^verbatim>\<open>{name} is hurt by its burn for {dmg} HP.\<close>
  \<^item> \<open>PoisonLine n d\<close>: \<^verbatim>\<open>{name} is hurt by poison for {dmg} HP.\<close>
\<close>

datatype log_line =
    TurnLine int
  | ParalyzedLine string
  | MissedLine string string
  | DamageLine string string int real
  | NoDamageLine string string
  | StatusLine string status
  | BurnLine string int
  | PoisonLine string int

record battle_outcome =
  winner :: "string option"
  turns :: int
  out_log :: "log_line list"

text \<open>
  The module \<^verbatim>\<open>random\<close>: a hidden generator state of type \<open>'g\<close> and the four
  operations the simulator calls. Each drawing operation returns its value and the next
  generator state; \<^verbatim>\<open>random.seed\<close> replaces the state by one that depends on the seed
  only.
\<close>

record 'g random_module =
  rnd_seed :: "int \<Rightarrow> 'g"
  rnd_random :: "'g \<Rightarrow> real \<times> 'g"
  rnd_randint :: "int \<Rightarrow> int \<Rightarrow> 'g \<Rightarrow> int \<times> 'g"
  rnd_uniform :: "real \<Rightarrow> real \<Rightarrow> 'g \<Rightarrow> real \<times> 'g"

section \<open>Stat and damage helpers\<close>

text \<open>Python's \<^verbatim>\<open>int(x)\<close> on a float truncates towards zero.\<close>

definition py_int :: "real \<Rightarrow> int" where
  "py_int x = (if 0 \<le> x then \<lfloor>x\<rfloor> else \<lceil>x\<rceil>)"

definition compute_hp_from_base :: "int \<Rightarrow> int \<Rightarrow> int" where
  "compute_hp_from_base base_hp lv =
     max 1 (py_int (real_of_int ((2 * base_hp + 31) * lv) / 100 + real_of_int lv + 10))"

definition stat_at_level :: "int \<Rightarrow> int \<Rightarrow> int" where
  "stat_at_level base lv =
     max 1 (py_int (real_of_int ((2 * base + 31) * lv) / 100 + 5))"

definition calc_damage ::
  "'g random_module \<Rightarrow> int \<Rightarrow> int \<Rightarrow> real \<Rightarrow> real \<Rightarrow> real \<Rightarrow> 'g \<Rightarrow> int \<times> 'g" where
  "calc_damage R lv pw attack defense modifier g =
     (let base = (((real_of_int (2 * lv) / 5 + 2) * real_of_int pw * (attack / max 1 defense)) / 50 + 2)
      in case rnd_uniform R 0.85 1.0 g of
           (rand, g') \<Rightarrow> (max 1 (py_int (base * modifier * rand)), g'))"

section \<open>Damage on doubles\<close>

text \<open>
  \<open>calc_damage\<close> above computes on exact reals and always returns. The floats of the
  program are doubles: a result too large for a double is an infinity, and \<^verbatim>\<open>int()\<close>
  raises on an infinity and on NaN. This section is \<^verbatim>\<open>calc_damage\<close> once more with these
  values and exceptions. A double is a finite real, an infinity or NaN. \<open>rd\<close>, the rounding
  of an in-range result to a double, is a parameter of every operation. Signed zeros are
  not told apart: nothing here divides by a zero.
\<close>

datatype py_float = Fin real | PosInf | NegInf | NaN

text \<open>The magnitude from which round-to-nearest gives an infinity: the largest double is
  \<open>2^1024 - 2^971\<close>, and a result at least half a unit in the last place above it
  overflows.\<close>

definition double_limit :: real where
  "double_limit = 2 ^ 1024 - 2 ^ 970"

text \<open>The double for the exact result \<open>r\<close> of an operation.\<close>

definition to_double :: "(real \<Rightarrow> real) \<Rightarrow> real \<Rightarrow> py_float" where
  "to_double rd r =
     (if double_limit \<le> r then PosInf
      else if r \<le> - double_limit then NegInf
      else Fin (rd r))"

text \<open>The sign of a double, and the infinity (or NaN) of a product of signs.\<close>

definition float_sign :: "py_float \<Rightarrow> int" where
  "float_sign x =
     (case x of
        Fin r \<Rightarrow> (if 0 < r then 1 else if r < 0 then - 1 else 0)
      | PosInf \<Rightarrow> 1
      | NegInf \<Rightarrow> - 1
      | NaN \<Rightarrow> 0)"

definition signed_inf :: "int \<Rightarrow> py_float" where
  "signed_inf k = (if k = 0 then NaN else if 0 < k then PosInf else NegInf)"

text \<open>\<^verbatim>\<open>x * y\<close> on floats.\<close>

fun float_mul :: "(real \<Rightarrow> real) \<Rightarrow> py_float \<Rightarrow> py_float \<Rightarrow> py_float" where
  "float_mul rd (Fin a) (Fin b) = to_double rd (a * b)"
| "float_mul rd NaN y = NaN"
| "float_mul rd x NaN = NaN"
| "float_mul rd x y = signed_inf (float_sign x * float_sign y)"

text \<open>\<^verbatim>\<open>x + y\<close> on floats.\<close>

fun float_add :: "(real \<Rightarrow> real) \<Rightarrow> py_float \<Rightarrow> py_float \<Rightarrow> py_float" where
  "float_add rd (Fin a) (Fin b) = to_double rd (a + b)"
| "float_add rd NaN y = NaN"
| "float_add rd x NaN = NaN"
| "float_add rd PosInf NegInf = NaN"
| "float_add rd NegInf PosInf = NaN"
| "float_add rd PosInf y = PosInf"
| "float_add rd NegInf y = NegInf"
| "float_add rd x PosInf = PosInf"
| "float_add rd x NegInf = NegInf"

text \<open>\<^verbatim>\<open>x / y\<close> on floats: a zero divisor raises \<^verbatim>\<open>ZeroDivisionError\<close>, whatever \<open>x\<close> is.\<close>

fun float_div :: "(real \<Rightarrow> real) \<Rightarrow> py_float \<Rightarrow> py_float \<Rightarrow> py_error + py_float" where
  "float_div rd x (Fin b) =
     (if b = 0 then Inl ZeroDivisionError
      else (case x of
              Fin a \<Rightarrow> Inr (to_double rd (a / b))
            | NaN \<Rightarrow> Inr NaN
            | _ \<Rightarrow> Inr (signed_inf (float_sign x * float_sign (Fin b)))))"
| "float_div rd NaN y = Inr NaN"
| "float_div rd x NaN = Inr NaN"
| "float_div rd (Fin a) y = Inr (Fin 0)"
| "float_div rd x y = Inr NaN"

text \<open>An \<^verbatim>\<open>int\<close> operand of a float operation is converted first, which raises
  \<^verbatim>\<open>OverflowError\<close> when it is too large for a double.\<close>

definition float_of_int :: "(real \<Rightarrow> real) \<Rightarrow> int \<Rightarrow> py_error + py_float" where
  "float_of_int rd n =
     (if double_limit \<le> \<bar>real_of_int n\<bar> then Inl OverflowError
      else Inr (Fin (rd (real_of_int n))))"

text \<open>\<^verbatim>\<open>a / b\<close> on two \<^verbatim>\<open>int\<close>s: the rounded quotient, or \<^verbatim>\<open>OverflowError\<close> when it is too
  large for a double.\<close>

definition int_truediv :: "(real \<Rightarrow> real) \<Rightarrow> int \<Rightarrow> int \<Rightarrow> py_error + py_float" where
  "int_truediv rd a b =
     (if b = 0 then Inl ZeroDivisionError
      else if double_limit \<le> \<bar>real_of_int a / real_of_int b\<bar> then Inl OverflowError
      else Inr (Fin (rd (real_of_int a / real_of_int b))))"

text \<open>\<^verbatim>\<open>max(1, defense)\<close>: \<^verbatim>\<open>defense\<close> when \<^verbatim>\<open>defense > 1\<close> holds, else 1 (so 1 for NaN).\<close>

definition max_1 :: "py_float \<Rightarrow> py_float" where
  "max_1 x =
     (case x of
        Fin r \<Rightarrow> (if 1 < r then x else Fin 1)
      | PosInf \<Rightarrow> PosInf
      | _ \<Rightarrow> Fin 1)"

text \<open>\<^verbatim>\<open>int(x)\<close>: truncation, \<^verbatim>\<open>OverflowError\<close> on an infinity, \<^verbatim>\<open>ValueError\<close> on NaN.\<close>

definition float_to_int :: "py_float \<Rightarrow> py_error + int" where
  "float_to_int x =
     (case x of
        Fin r \<Rightarrow> Inr (py_int r)
      | NaN \<Rightarrow> Inl ValueError
      | _ \<Rightarrow> Inl OverflowError)"

text \<open>Sequencing: the first exception raised ends the computation.\<close>

definition py_bind :: "py_error + 'a \<Rightarrow> ('a \<Rightarrow> py_error + 'b) \<Rightarrow> py_error + 'b" where
  "py_bind m f = (case m of Inl e \<Rightarrow> Inl e | Inr x \<Rightarrow> f x)"

text \<open>\<^verbatim>\<open>calc_damage\<close> on doubles, operation by operation in the order Python evaluates
  them.\<close>

definition calc_damage_float ::
  "(real \<Rightarrow> real) \<Rightarrow> 'g random_module \<Rightarrow> int \<Rightarrow> int \<Rightarrow> py_float \<Rightarrow> py_float \<Rightarrow> py_float \<Rightarrow> 'g \<Rightarrow>
     py_error + int \<times> 'g" where
  "calc_damage_float rd R lv pw attack defense modifier g =
     py_bind (int_truediv rd (2 * lv) 5) (\<lambda>t1.
     py_bind (float_of_int rd pw) (\<lambda>fpw.
     py_bind (float_div rd attack (max_1 defense)) (\<lambda>t4.
     py_bind (float_div rd (float_mul rd (float_mul rd (float_add rd t1 (Fin 2)) fpw) t4)
                (Fin 50)) (\<lambda>t6.
       (let base = float_add rd t6 (Fin 2)
        in case rnd_uniform R 0.85 1.0 g of
             (rand, g') \<Rightarrow>
               py_bind (float_to_int (float_mul rd (float_mul rd base modifier) (Fin rand)))
                 (\<lambda>dmg. Inr (max 1 dmg, g')))))))"

text \<open>For the statements: \<open>fin_within b x\<close> says that \<open>x\<close> is finite with magnitude at most
  \<open>b\<close>; \<open>rounds_near rd\<close> that rounding at most doubles a magnitude (round-to-nearest
  changes it by less than one part in \<open>2^53\<close>, and keeps 0).\<close>

definition fin_within :: "real \<Rightarrow> py_float \<Rightarrow> bool" where
  "fin_within b x = (case x of Fin r \<Rightarrow> \<bar>r\<bar> \<le> b | _ \<Rightarrow> False)"

definition rounds_near :: "(real \<Rightarrow> real) \<Rightarrow> bool" where
  "rounds_near rd = (\<forall>x. \<bar>rd x\<bar> \<le> 2 * \<bar>x\<bar>)"


section \<open>Upstream data and the type chart\<close>

text \<open>
  What \<^verbatim>\<open>fetch_json\<close> delivers is a parameter of the model. \<open>get_pokemon_data\<close> and
  \<open>get_move_data\<close> stand for the loaders of the same name (an upstream failure is
  \<open>Inl\<close>); \<open>fetch_types\<close> is the \<^verbatim>\<open>results\<close> list of the \<^verbatim>\<open>/type\<close> resource and
  \<open>fetch_type\<close> the record behind one \<^verbatim>\<open>url\<close> of that list.
\<close>

record type_ref =
  t_name :: string
  t_url :: string

text \<open>A type record: \<^verbatim>\<open>name\<close> and the three lists of \<^verbatim>\<open>damage_relations\<close> that are
  read, each reduced to the names of its entries (an absent list reads as empty).\<close>

record type_data =
  td_name :: string
  double_damage_to :: "string list"
  half_damage_to :: "string list"
  no_damage_to :: "string list"

type_synonym chart_row = "string \<Rightarrow> real option"
type_synonym type_chart = "string \<Rightarrow> chart_row option"

record upstream =
  get_pokemon_data :: "string \<Rightarrow> py_error + pokemon"
  get_move_data :: "string \<Rightarrow> py_error + move"
  fetch_types :: "py_error + type_ref list"
  fetch_type :: "string \<Rightarrow> py_error + type_data"

text \<open>\<^verbatim>\<open>for d in ds: row[d] = v\<close>\<close>

fun set_all :: "real \<Rightarrow> string list \<Rightarrow> chart_row \<Rightarrow> chart_row" where
  "set_all v [] row = row"
| "set_all v (d # ds) row = set_all v ds (row(d \<mapsto> v))"

text \<open>The four inner loops of \<^verbatim>\<open>build_type_chart\<close> on the row of one attacking type:
  1.0 for every listed type, then 2.0, 0.5 and 0.0 in this order.\<close>

definition fill_row :: "string list \<Rightarrow> type_data \<Rightarrow> chart_row \<Rightarrow> chart_row" where
  "fill_row names tdata row =
     set_all 0 (no_damage_to tdata)
       (set_all 0.5 (half_damage_to tdata)
         (set_all 2 (double_damage_to tdata)
           (set_all 1 names row)))"

text \<open>The outer loop. A type whose record fails to load is skipped
  (\<^verbatim>\<open>except Exception: continue\<close>); \<^verbatim>\<open>chart.setdefault(atk, {})\<close> keeps a row that is
  already there.\<close>

fun build_rows :: "upstream \<Rightarrow> string list \<Rightarrow> type_ref list \<Rightarrow> type_chart \<Rightarrow> type_chart" where
  "build_rows U names [] chart = chart"
| "build_rows U names (t # ts) chart =
     (case fetch_type U (t_url t) of
        Inl e \<Rightarrow> build_rows U names ts chart
      | Inr tdata \<Rightarrow>
          (let atk = td_name tdata;
               row = (case chart atk of None \<Rightarrow> Map.empty | Some r \<Rightarrow> r)
           in build_rows U names ts (chart(atk \<mapsto> fill_row names tdata row))))"

text \<open>\<open>cache\<close> is the entry \<^verbatim>\<open>"type_chart"\<close> of the shared cache; the result is the
  chart and the entry afterwards.\<close>

definition build_type_chart ::
  "upstream \<Rightarrow> type_chart option \<Rightarrow> py_error + (type_chart \<times> type_chart option)" where
  "build_type_chart U cache =
     (case cache of
        Some chart \<Rightarrow> Inr (chart, cache)
      | None \<Rightarrow>
          (case fetch_types U of
             Inl e \<Rightarrow> Inl e
           | Inr types_list \<Rightarrow>
               (let chart = build_rows U (map t_name types_list) types_list Map.empty
                in Inr (chart, Some chart))))"

text \<open>\<^verbatim>\<open>type_chart.get(move_type, {}).get(t, 1.0)\<close>\<close>

definition chart_get :: "type_chart \<Rightarrow> string \<Rightarrow> string \<Rightarrow> real" where
  "chart_get chart move_type t =
     (case chart move_type of
        None \<Rightarrow> 1
      | Some row \<Rightarrow> (case row t of None \<Rightarrow> 1 | Some v \<Rightarrow> v))"

definition type_multiplier :: "type_chart \<Rightarrow> string \<Rightarrow> string list \<Rightarrow> real" where
  "type_multiplier chart move_type target_types =
     foldl (\<lambda>mult t. mult * chart_get chart move_type t) 1 target_types"

text \<open>
  For the statements about the chart: \<open>declared_multiplier\<close> is the multiplier a type
  record declares against a defending type, where a name in several lists takes the value
  written last (0.0 over 0.5 over 2.0) and a name in none takes 1.0; \<open>multiplier_value\<close>
  says that a number is one of the four multipliers.
\<close>

definition declared_multiplier :: "type_data \<Rightarrow> string \<Rightarrow> real" where
  "declared_multiplier tdata d =
     (if d \<in> set (no_damage_to tdata) then 0
      else if d \<in> set (half_damage_to tdata) then 0.5
      else if d \<in> set (double_damage_to tdata) then 2
      else 1)"

definition multiplier_value :: "real \<Rightarrow> bool" where
  "multiplier_value v = (v = 0 \<or> v = 0.5 \<or> v = 1 \<or> v = 2)"

text \<open>What holds of every row of a chart under construction: it was filled from a record
  that loaded for some listed type, and all its values are multipliers.\<close>

definition row_built :: "upstream \<Rightarrow> type_ref list \<Rightarrow> string \<Rightarrow> chart_row \<Rightarrow> bool" where
  "row_built U types_list atk row =
     ((\<exists>t \<in> set types_list. \<exists>tdata. fetch_type U (t_url t) = Inr tdata \<and> td_name tdata = atk \<and>
          (\<forall>d \<in> set (map t_name types_list). row d = Some (declared_multiplier tdata d))) \<and>
      (\<forall>d v. row d = Some v \<longrightarrow> multiplier_value v))"

section \<open>Move selection\<close>

text \<open>The loop over \<^verbatim>\<open>provided\<close>: the first name that loads is returned.\<close>

fun first_loaded :: "upstream \<Rightarrow> string list \<Rightarrow> move option" where
  "first_loaded U [] = None"
| "first_loaded U (name # rest) =
     (case get_move_data U name of
        Inr mv \<Rightarrow> Some mv
      | Inl e \<Rightarrow> first_loaded U rest)"

text \<open>\<^verbatim>\<open>md['power'] and md['damage_class'] in ("physical","special")\<close>: the power is
  truthy when it is neither \<^verbatim>\<open>None\<close> nor 0.\<close>

definition is_candidate :: "move \<Rightarrow> bool" where
  "is_candidate md =
     ((case m_power md of None \<Rightarrow> False | Some p \<Rightarrow> p \<noteq> 0) \<and>
      (m_damage_class md = Some ''physical'' \<or> m_damage_class md = Some ''special''))"

fun scan_candidates :: "upstream \<Rightarrow> string list \<Rightarrow> move list" where
  "scan_candidates U [] = []"
| "scan_candidates U (mv # rest) =
     (case get_move_data U mv of
        Inl e \<Rightarrow> scan_candidates U rest
      | Inr md \<Rightarrow>
          (if is_candidate md then md # scan_candidates U rest
           else scan_candidates U rest))"

text \<open>\<^verbatim>\<open>x['power'] or 0\<close>\<close>

definition power_or_0 :: "move \<Rightarrow> int" where
  "power_or_0 x = (case m_power x of None \<Rightarrow> 0 | Some p \<Rightarrow> p)"

definition struggle :: "string \<Rightarrow> move" where
  "struggle ty =
     \<lparr>m_name = ''struggle'', m_power = Some 50, m_accuracy = Some 100, m_type = ty,
      m_damage_class = Some ''physical'', m_effect_chance = None, m_effect_entries = []\<rparr>"

text \<open>\<^verbatim>\<open>candidates.sort(key=..., reverse=True)\<close> is a stable sort in descending order of
  the key: a stable ascending sort on the negated key. \<^verbatim>\<open>poke['types'][0]\<close> raises
  \<^verbatim>\<open>IndexError\<close> on an empty list.\<close>

definition select_move :: "upstream \<Rightarrow> pokemon \<Rightarrow> string list option \<Rightarrow> py_error + move" where
  "select_move U poke provided =
     (case (case provided of None \<Rightarrow> None | Some names \<Rightarrow> first_loaded U names) of
        Some mv \<Rightarrow> Inr mv
      | None \<Rightarrow>
          (let candidates = scan_candidates U (take 40 (p_moves poke)) in
           if candidates \<noteq> [] then Inr (hd (sort_key (\<lambda>x. - power_or_0 x) candidates))
           else (case p_types poke of
                   [] \<Rightarrow> Inl IndexError
                 | ty # _ \<Rightarrow> Inr (struggle ty))))"

section \<open>Status engine\<close>

text \<open>Strings are byte strings here: \<^verbatim>\<open>lower()\<close> maps the ASCII capitals, which is all
  that the three keywords can match.\<close>

definition lower_char :: "char \<Rightarrow> char" where
  "lower_char c =
     (let n = (of_char c :: nat) in if 65 \<le> n \<and> n \<le> 90 then char_of (n + 32) else c)"

fun starts_with :: "string \<Rightarrow> string \<Rightarrow> bool" where
  "starts_with [] t = True"
| "starts_with (c # cs) [] = False"
| "starts_with (c # cs) (d # ds) = (c = d \<and> starts_with cs ds)"

text \<open>\<open>contains pat t\<close> is \<^verbatim>\<open>pat in t\<close>.\<close>

fun contains :: "string \<Rightarrow> string \<Rightarrow> bool" where
  "contains pat [] = (pat = [])"
| "contains pat (d # ds) = (starts_with pat (d # ds) \<or> contains pat ds)"

text \<open>\<^verbatim>\<open>" ".join(parts)\<close>\<close>

fun join_space :: "string list \<Rightarrow> string" where
  "join_space [] = []"
| "join_space [x] = x"
| "join_space (x # y # rest) = x @ '' '' @ join_space (y # rest)"

definition detect_status_from_move :: "move \<Rightarrow> status option" where
  "detect_status_from_move mv =
     (let texts = join_space (map (\<lambda>e. effect e @ '' '' @ short_effect e) (m_effect_entries mv));
          t = map lower_char texts
      in if contains ''paraly'' t \<or> contains ''paralys'' t then Some Paralysis
         else if contains ''burn'' t then Some Burn
         else if contains ''poison'' t then Some Poison
         else None)"

text \<open>\<^verbatim>\<open>chance = move.get('effect_chance') or 0\<close>; the generator is drawn from only when
  \<^verbatim>\<open>chance > 0\<close> (\<^verbatim>\<open>and\<close> evaluates its right operand only then).\<close>

definition apply_status_chance ::
  "'g random_module \<Rightarrow> move \<Rightarrow> status option \<Rightarrow> 'g \<Rightarrow> status option \<times> 'g" where
  "apply_status_chance R mv target_status g =
     (case detect_status_from_move mv of
        None \<Rightarrow> (target_status, g)
      | Some st \<Rightarrow>
          (let chance = (case m_effect_chance mv of None \<Rightarrow> 0 | Some ch \<Rightarrow> ch) in
           if chance > 0 then
             (case rnd_randint R 1 100 g of
                (r, g') \<Rightarrow> if r \<le> chance then (Some st, g') else (target_status, g'))
           else (target_status, g)))"

section \<open>The battle\<close>

text \<open>What \<^verbatim>\<open>simulate_battle\<close> computes once before the loop and only reads
  afterwards. \<open>turn_limit\<close> is \<^verbatim>\<open>req.max_turns or 200\<close>.\<close>

record battle_ctx =
  attacker_data :: pokemon
  defender_data :: pokemon
  type_chart :: type_chart
  lvl :: int
  atk_hp :: int
  def_hp :: int
  atk_attack :: int
  atk_sp_atk :: int
  atk_speed :: int
  def_attack :: int
  def_sp_atk :: int
  def_speed :: int
  atk_move :: move
  def_move :: move
  turn_limit :: int

text \<open>The variables the loop assigns, and the generator state.\<close>

record 'g battle_state =
  atk_curr :: int
  def_curr :: int
  atk_status :: "status option"
  def_status :: "status option"
  event_log :: "log_line list"
  turn :: int
  rng :: 'g

definition hits :: "'g random_module \<Rightarrow> int option \<Rightarrow> 'g \<Rightarrow> bool \<times> 'g" where
  "hits R accuracy g =
     (case accuracy of
        None \<Rightarrow> (True, g)
      | Some a \<Rightarrow> (case rnd_randint R 1 100 g of (r, g') \<Rightarrow> (r \<le> max 1 a, g')))"

text \<open>\<^verbatim>\<open>user_status == Status.PARALYSIS and random.random() < 0.25\<close>: a draw is made
  only for a paralysed user.\<close>

definition paralysis_skip :: "'g random_module \<Rightarrow> status option \<Rightarrow> 'g \<Rightarrow> bool \<times> 'g" where
  "paralysis_skip R user_status g =
     (if user_status = Some Paralysis
      then (case rnd_random R g of (u, g') \<Rightarrow> (u < 0.25, g'))
      else (False, g))"

text \<open>
  The branch \<^verbatim>\<open>actor == "attacker"\<close> of the inner loop, in three parts: the damage
  step (\<^verbatim>\<open>power = move.get('power') or 0\<close> and the \<^verbatim>\<open>if power > 0\<close> that follows
  it), the status step (\<^verbatim>\<open>apply_status_chance\<close> and the \<^verbatim>\<open>if new_status and ...\<close>
  after it), and the branch itself, which reaches them past the paralysis and accuracy
  checks. \<open>g\<close> is the generator state when the damage step starts.
\<close>

definition attacker_damage ::
  "'g random_module \<Rightarrow> battle_ctx \<Rightarrow> 'g battle_state \<Rightarrow> 'g \<Rightarrow> 'g battle_state" where
  "attacker_damage R c s g =
     (let user_name = p_name (attacker_data c);
          mv = atk_move c;
          pw = power_or_0 mv
      in if pw > 0 then
           (let physical = (m_damage_class mv = Some ''physical'');
                attack_stat = (if physical then atk_attack c else atk_sp_atk c);
                defense_stat = (if physical then def_attack c else def_sp_atk c);
                stab = (if m_type mv \<in> set (p_types (attacker_data c)) then 1.5 else 1 :: real);
                mult = type_multiplier (type_chart c) (m_type mv) (p_types (defender_data c))
            in case rnd_random R g of
              (u, g3) \<Rightarrow>
                (let crit = (if u < 0.0625 then 1.5 else 1 :: real);
                     eff_attack = real_of_int attack_stat *
                       (if atk_status s = Some Burn \<and> physical then 0.5 else 1);
                     modifier = stab * mult * crit
                 in case calc_damage R (lvl c) pw eff_attack (real_of_int defense_stat)
                           modifier g3 of
                   (dmg, g4) \<Rightarrow>
                     s\<lparr>def_curr := max 0 (def_curr s - dmg),
                       event_log := event_log s @ [DamageLine user_name (m_name mv) dmg mult],
                       rng := g4\<rparr>))
         else s\<lparr>event_log := event_log s @ [NoDamageLine user_name (m_name mv)], rng := g\<rparr>)"

definition attacker_inflict ::
  "'g random_module \<Rightarrow> battle_ctx \<Rightarrow> 'g battle_state \<Rightarrow> 'g battle_state" where
  "attacker_inflict R c s =
     (let target_name = p_name (defender_data c) in
      case apply_status_chance R (atk_move c) (def_status s) (rng s) of
        (new_status, g') \<Rightarrow>
          (case new_status of
             None \<Rightarrow> s\<lparr>rng := g'\<rparr>
           | Some st \<Rightarrow>
               if new_status \<noteq> def_status s
               then s\<lparr>def_status := new_status,
                      event_log := event_log s @ [StatusLine target_name st],
                      rng := g'\<rparr>
               else s\<lparr>rng := g'\<rparr>))"

definition attacker_action ::
  "'g random_module \<Rightarrow> battle_ctx \<Rightarrow> 'g battle_state \<Rightarrow> 'g battle_state" where
  "attacker_action R c s =
     (let user_name = p_name (attacker_data c);
          mv = atk_move c
      in case paralysis_skip R (atk_status s) (rng s) of
        (skip, g1) \<Rightarrow>
          if skip then s\<lparr>event_log := event_log s @ [ParalyzedLine user_name], rng := g1\<rparr>
          else
            (case hits R (m_accuracy mv) g1 of
              (hit, g2) \<Rightarrow>
                if \<not> hit
                then s\<lparr>event_log := event_log s @ [MissedLine user_name (m_name mv)], rng := g2\<rparr>
                else attacker_inflict R c (attacker_damage R c s g2)))"

text \<open>The \<^verbatim>\<open>else\<close> branch: the same steps with the two sides exchanged.\<close>

definition defender_damage ::
  "'g random_module \<Rightarrow> battle_ctx \<Rightarrow> 'g battle_state \<Rightarrow> 'g \<Rightarrow> 'g battle_state" where
  "defender_damage R c s g =
     (let user_name = p_name (defender_data c);
          mv = def_move c;
          pw = power_or_0 mv
      in if pw > 0 then
           (let physical = (m_damage_class mv = Some ''physical'');
                attack_stat = (if physical then def_attack c else def_sp_atk c);
                defense_stat = (if physical then atk_attack c else atk_sp_atk c);
                stab = (if m_type mv \<in> set (p_types (defender_data c)) then 1.5 else 1 :: real);
                mult = type_multiplier (type_chart c) (m_type mv) (p_types (attacker_data c))
            in case rnd_random R g of
              (u, g3) \<Rightarrow>
                (let crit = (if u < 0.0625 then 1.5 else 1 :: real);
                     eff_attack = real_of_int attack_stat *
                       (if def_status s = Some Burn \<and> physical then 0.5 else 1);
                     modifier = stab * mult * crit
                 in case calc_damage R (lvl c) pw eff_attack (real_of_int defense_stat)
                           modifier g3 of
                   (dmg, g4) \<Rightarrow>
                     s\<lparr>atk_curr := max 0 (atk_curr s - dmg),
                       event_log := event_log s @ [DamageLine user_name (m_name mv) dmg mult],
                       rng := g4\<rparr>))
         else s\<lparr>event_log := event_log s @ [NoDamageLine user_name (m_name mv)], rng := g\<rparr>)"

definition defender_inflict ::
  "'g random_module \<Rightarrow> battle_ctx \<Rightarrow> 'g battle_state \<Rightarrow> 'g battle_state" where
  "defender_inflict R c s =
     (let target_name = p_name (attacker_data c) in
      case apply_status_chance R (def_move c) (atk_status s) (rng s) of
        (new_status, g') \<Rightarrow>
          (case new_status of
             None \<Rightarrow> s\<lparr>rng := g'\<rparr>
           | Some st \<Rightarrow>
               if new_status \<noteq> atk_status s
               then s\<lparr>atk_status := new_status,
                      event_log := event_log s @ [StatusLine target_name st],
                      rng := g'\<rparr>
               else s\<lparr>rng := g'\<rparr>))"

definition defender_action ::
  "'g random_module \<Rightarrow> battle_ctx \<Rightarrow> 'g battle_state \<Rightarrow> 'g battle_state" where
  "defender_action R c s =
     (let user_name = p_name (defender_data c);
          mv = def_move c
      in case paralysis_skip R (def_status s) (rng s) of
        (skip, g1) \<Rightarrow>
          if skip then s\<lparr>event_log := event_log s @ [ParalyzedLine user_name], rng := g1\<rparr>
          else
            (case hits R (m_accuracy mv) g1 of
              (hit, g2) \<Rightarrow>
                if \<not> hit
                then s\<lparr>event_log := event_log s @ [MissedLine user_name (m_name mv)], rng := g2\<rparr>
                else defender_inflict R c (defender_damage R c s g2)))"

definition fainted :: "'g battle_state \<Rightarrow> bool" where
  "fainted s = (atk_curr s \<le> 0 \<or> def_curr s \<le> 0)"

text \<open>The inner \<^verbatim>\<open>for actor in (...)\<close> loop. An iteration starts with the faint check
  and \<^verbatim>\<open>break\<close>; the check that ends an iteration is the same test on the same state
  as the one that starts the next, and a \<^verbatim>\<open>continue\<close> changes no HP.\<close>

definition run_actions ::
  "'g random_module \<Rightarrow> battle_ctx \<Rightarrow> bool \<Rightarrow> 'g battle_state \<Rightarrow> 'g battle_state" where
  "run_actions R c first_attacker s =
     (let s1 = (if fainted s then s
                else if first_attacker then attacker_action R c s else defender_action R c s)
      in if fainted s1 then s1
         else if first_attacker then defender_action R c s1 else attacker_action R c s1)"

text \<open>\<^verbatim>\<open>apply_eot\<close> returns the new HP and appends to the log, which is passed and
  returned here.\<close>

definition apply_eot ::
  "string \<Rightarrow> status option \<Rightarrow> int \<Rightarrow> int \<Rightarrow> log_line list \<Rightarrow> int \<times> log_line list" where
  "apply_eot name st curr_hp max_hp lg =
     (if st = Some Burn then
        (let dmg = max 1 (py_int (real_of_int max_hp / 16))
         in (max 0 (curr_hp - dmg), lg @ [BurnLine name dmg]))
      else if st = Some Poison then
        (let dmg = max 1 (py_int (real_of_int max_hp / 8))
         in (max 0 (curr_hp - dmg), lg @ [PoisonLine name dmg]))
      else (curr_hp, lg))"

definition end_of_turn :: "battle_ctx \<Rightarrow> 'g battle_state \<Rightarrow> 'g battle_state" where
  "end_of_turn c s =
     (case apply_eot (p_name (attacker_data c)) (atk_status s) (atk_curr s) (atk_hp c)
             (event_log s) of
        (a, lg1) \<Rightarrow>
          (case apply_eot (p_name (defender_data c)) (def_status s) (def_curr s) (def_hp c) lg1 of
             (d, lg2) \<Rightarrow> s\<lparr>atk_curr := a, def_curr := d, event_log := lg2\<rparr>))"

text \<open>One pass through the body of the \<^verbatim>\<open>while\<close> loop, up to its last \<^verbatim>\<open>if\<close>.\<close>

definition turn_body ::
  "'g random_module \<Rightarrow> battle_ctx \<Rightarrow> 'g battle_state \<Rightarrow> 'g battle_state" where
  "turn_body R c s =
     (let s0 = s\<lparr>turn := turn s + 1, event_log := event_log s @ [TurnLine (turn s + 1)]\<rparr>;
          atk_eff_spd = real_of_int (atk_speed c) *
                          (if atk_status s0 = Some Paralysis then 0.5 else 1);
          def_eff_spd = real_of_int (def_speed c) *
                          (if def_status s0 = Some Paralysis then 0.5 else 1);
          first_attacker = (atk_eff_spd \<ge> def_eff_spd)
      in end_of_turn c (run_actions R c first_attacker s0))"

text \<open>The \<^verbatim>\<open>while\<close> loop, with the \<^verbatim>\<open>break\<close> that ends its body. Every pass adds
  one to \<open>turn\<close>, which the loop condition bounds by \<open>turn_limit\<close>.\<close>

function battle_loop ::
  "'g random_module \<Rightarrow> battle_ctx \<Rightarrow> 'g battle_state \<Rightarrow> 'g battle_state" where
  "battle_loop R c s =
     (if turn s < turn_limit c \<and> atk_curr s > 0 \<and> def_curr s > 0 then
        (let s' = turn_body R c s in if fainted s' then s' else battle_loop R c s')
      else s)"
  by pat_completeness auto
termination
proof (relation "measure (\<lambda>(R, c, s). nat (turn_limit c - turn s))")
  show "wf (measure (\<lambda>(R, c, s). nat (turn_limit c - turn s)))"
    by simp
next
  fix R :: "'g random_module" and c :: battle_ctx and s x :: "'g battle_state"
  assume run: "turn s < turn_limit c \<and> 0 < atk_curr s \<and> 0 < def_curr s"
    and x: "x = turn_body R c s"
  have a1: "turn (attacker_damage R c t g) = turn t" for g and t :: "'g battle_state"
    by (simp add: attacker_damage_def Let_def split: prod.split)
  have a2: "turn (attacker_inflict R c t) = turn t" for t :: "'g battle_state"
    by (simp add: attacker_inflict_def Let_def split: prod.split option.split)
  have a: "turn (attacker_action R c t) = turn t" for t :: "'g battle_state"
    by (simp add: attacker_action_def Let_def a1 a2 split: prod.split)
  have d1: "turn (defender_damage R c t g) = turn t" for g and t :: "'g battle_state"
    by (simp add: defender_damage_def Let_def split: prod.split)
  have d2: "turn (defender_inflict R c t) = turn t" for t :: "'g battle_state"
    by (simp add: defender_inflict_def Let_def split: prod.split option.split)
  have d: "turn (defender_action R c t) = turn t" for t :: "'g battle_state"
    by (simp add: defender_action_def Let_def d1 d2 split: prod.split)
  have r: "turn (run_actions R c b t) = turn t" for b and t :: "'g battle_state"
    by (simp add: run_actions_def Let_def a d)
  have e: "turn (end_of_turn c t) = turn t" for t :: "'g battle_state"
    by (simp add: end_of_turn_def split: prod.split)
  have "turn x = turn s + 1"
    by (simp add: x turn_body_def Let_def e r)
  with run show "((R, c, x), (R, c, s)) \<in> measure (\<lambda>(R, c, s). nat (turn_limit c - turn s))"
    by simp
qed

text \<open>The condition of the \<^verbatim>\<open>while\<close> loop.\<close>

definition running :: "battle_ctx \<Rightarrow> 'g battle_state \<Rightarrow> bool" where
  "running c s = (turn s < turn_limit c \<and> atk_curr s > 0 \<and> def_curr s > 0)"

text \<open>
  Two predicates on the hit points of a state: \<open>hp_in_range\<close>, that both current values
  lie between 0 and the side's maximum, and \<open>hp_step s s'\<close>, that from \<open>s\<close> to \<open>s'\<close>
  neither value has grown and both are at least 0.
\<close>

definition hp_step :: "'g battle_state \<Rightarrow> 'g battle_state \<Rightarrow> bool" where
  "hp_step s s' =
     (0 \<le> atk_curr s' \<and> atk_curr s' \<le> atk_curr s \<and> 0 \<le> def_curr s' \<and> def_curr s' \<le> def_curr s)"

definition hp_in_range :: "battle_ctx \<Rightarrow> 'g battle_state \<Rightarrow> bool" where
  "hp_in_range c s =
     (0 \<le> atk_curr s \<and> atk_curr s \<le> atk_hp c \<and> 0 \<le> def_curr s \<and> def_curr s \<le> def_hp c)"

text \<open>\<^verbatim>\<open>stats.get(key, 10)\<close>\<close>

definition stat_or_10 :: "pokemon \<Rightarrow> string \<Rightarrow> int" where
  "stat_or_10 poke key = (case p_stats poke key of None \<Rightarrow> 10 | Some v \<Rightarrow> v)"

text \<open>\<^verbatim>\<open>x or d\<close> on an optional integer: \<^verbatim>\<open>None\<close> and 0 are both falsy.\<close>

definition int_or :: "int option \<Rightarrow> int \<Rightarrow> int" where
  "int_or x d = (case x of None \<Rightarrow> d | Some v \<Rightarrow> if v = 0 then d else v)"

definition make_ctx ::
  "battle_request \<Rightarrow> pokemon \<Rightarrow> pokemon \<Rightarrow> type_chart \<Rightarrow> move \<Rightarrow> move \<Rightarrow> battle_ctx" where
  "make_ctx req ad dd chart am dm =
     (let lv = int_or (level req) 50 in
      \<lparr>attacker_data = ad, defender_data = dd, type_chart = chart, lvl = lv,
       atk_hp = compute_hp_from_base (stat_or_10 ad ''hp'') lv,
       def_hp = compute_hp_from_base (stat_or_10 dd ''hp'') lv,
       atk_attack = stat_at_level (stat_or_10 ad ''attack'') lv,
       atk_sp_atk = stat_at_level (stat_or_10 ad ''special-attack'') lv,
       atk_speed = stat_at_level (stat_or_10 ad ''speed'') lv,
       def_attack = stat_at_level (stat_or_10 dd ''attack'') lv,
       def_sp_atk = stat_at_level (stat_or_10 dd ''special-attack'') lv,
       def_speed = stat_at_level (stat_or_10 dd ''speed'') lv,
       atk_move = am, def_move = dm,
       turn_limit = int_or (max_turns req) 200\<rparr>)"

definition init_state :: "battle_ctx \<Rightarrow> 'g \<Rightarrow> 'g battle_state" where
  "init_state c g =
     \<lparr>atk_curr = atk_hp c, def_curr = def_hp c, atk_status = None, def_status = None,
      event_log = [], turn = 0, rng = g\<rparr>"

definition outcome :: "battle_ctx \<Rightarrow> 'g battle_state \<Rightarrow> battle_outcome" where
  "outcome c s =
     \<lparr>winner =
        (if atk_curr s > 0 \<and> def_curr s \<le> 0 then Some (p_name (attacker_data c))
         else if def_curr s > 0 \<and> atk_curr s \<le> 0 then Some (p_name (defender_data c))
         else None),
      turns = turn s,
      out_log = event_log s\<rparr>"

text \<open>
  The endpoint. \<open>g0\<close> is the state of the process-wide generator when the request
  arrives and \<open>cache\<close> the cached chart, if any. \<^verbatim>\<open>random.seed\<close> acts on that
  process-wide generator, and between the seeding and the first draw the coroutine is
  suspended at \<^verbatim>\<open>await asyncio.gather(...)\<close>, \<^verbatim>\<open>await build_type_chart()\<close> and the two
  \<^verbatim>\<open>await select_move(...)\<close>: other requests served by the same event loop run there
  and may draw from the generator or seed it. \<open>others\<close> is what they do to its state in
  that time. The loop itself does not suspend (\<^verbatim>\<open>apply_status_chance\<close> awaits nothing),
  so the generator is the request's own from the first draw on. The response alone is
  returned; what the request leaves behind in the generator and the cache is not.
\<close>

definition simulate_battle_among ::
  "'g random_module \<Rightarrow> upstream \<Rightarrow> type_chart option \<Rightarrow> battle_request \<Rightarrow> ('g \<Rightarrow> 'g) \<Rightarrow> 'g \<Rightarrow>
     py_error + battle_outcome" where
  "simulate_battle_among R U cache req others g0 =
     (let g = (case random_seed req of None \<Rightarrow> g0 | Some sd \<Rightarrow> rnd_seed R sd) in
      case get_pokemon_data U (attacker req) of
        Inl e \<Rightarrow> Inl e
      | Inr ad \<Rightarrow>
      (case get_pokemon_data U (defender req) of
        Inl e \<Rightarrow> Inl e
      | Inr dd \<Rightarrow>
      (case build_type_chart U cache of
        Inl e \<Rightarrow> Inl e
      | Inr (chart, cache') \<Rightarrow>
      (case select_move U ad (attacker_moves req) of
        Inl e \<Rightarrow> Inl e
      | Inr am \<Rightarrow>
      (case select_move U dd (defender_moves req) of
        Inl e \<Rightarrow> Inl e
      | Inr dm \<Rightarrow>
          (let c = make_ctx req ad dd chart am dm
           in Inr (outcome c (battle_loop R c (init_state c (others g))))))))))"

text \<open>A request that is served alone: nothing else touches the generator.\<close>

definition simulate_battle ::
  "'g random_module \<Rightarrow> upstream \<Rightarrow> type_chart option \<Rightarrow> battle_request \<Rightarrow> 'g \<Rightarrow>
     py_error + battle_outcome" where
  "simulate_battle R U cache req g0 = simulate_battle_among R U cache req (\<lambda>g. g) g0"

section \<open>A concrete instance\<close>

text \<open>
  A small generator, two creatures, two moves and five types, on which the theorems below
  are instantiated. The generator state is a counter; every draw advances it by one.
\<close>

definition test_random :: "nat random_module" where
  "test_random =
     \<lparr>rnd_seed = (\<lambda>sd. nat \<bar>sd\<bar>),
      rnd_random = (\<lambda>g. (real (g mod 8) / 8, g + 1)),
      rnd_randint = (\<lambda>lo hi g. (lo + int g mod (hi - lo + 1), g + 1)),
      rnd_uniform = (\<lambda>a b g. (a + (b - a) * (real (g mod 4) / 4), g + 1))\<rparr>"

definition inferno :: move where
  "inferno =
     \<lparr>m_name = ''inferno'', m_power = Some 100, m_accuracy = Some 50, m_type = ''fire'',
      m_damage_class = Some ''special'', m_effect_chance = Some 100,
      m_effect_entries =
        [\<lparr>effect = ''Inflicts regular damage. Has a $effect_chance% chance to burn the target.'',
          short_effect = ''Has a $effect_chance% chance to burn the target.''\<rparr>]\<rparr>"

definition scratch :: move where
  "scratch =
     \<lparr>m_name = ''scratch'', m_power = Some 40, m_accuracy = Some 100, m_type = ''normal'',
      m_damage_class = Some ''physical'', m_effect_chance = None,
      m_effect_entries =
        [\<lparr>effect = ''Inflicts regular damage.'',
          short_effect = ''Inflicts regular damage with no additional effect.''\<rparr>]\<rparr>"

definition charizard :: pokemon where
  "charizard =
     \<lparr>p_name = ''charizard'',
      p_stats = map_of [(''hp'', 78), (''attack'', 84), (''defense'', 78),
                        (''special-attack'', 109), (''special-defense'', 85), (''speed'', 100)],
      p_types = [''fire'', ''flying''],
      p_moves = [''scratch'', ''inferno'']\<rparr>"

definition shedinja :: pokemon where
  "shedinja =
     \<lparr>p_name = ''shedinja'',
      p_stats = map_of [(''hp'', 1), (''attack'', 90), (''defense'', 45),
                        (''special-attack'', 30), (''special-defense'', 30), (''speed'', 40)],
      p_types = [''bug'', ''ghost''],
      p_moves = [''scratch'']\<rparr>"

definition test_types :: "type_ref list" where
  "test_types =
     [\<lparr>t_name = ''normal'', t_url = ''type/1''\<rparr>, \<lparr>t_name = ''flying'', t_url = ''type/3''\<rparr>,
      \<lparr>t_name = ''bug'', t_url = ''type/7''\<rparr>, \<lparr>t_name = ''ghost'', t_url = ''type/8''\<rparr>,
      \<lparr>t_name = ''fire'', t_url = ''type/10''\<rparr>]"

definition test_fetch_type :: "string \<Rightarrow> py_error + type_data" where
  "test_fetch_type u =
     (if u = ''type/1'' then
        Inr \<lparr>td_name = ''normal'', double_damage_to = [], half_damage_to = [],
             no_damage_to = [''ghost'']\<rparr>
      else if u = ''type/3'' then
        Inr \<lparr>td_name = ''flying'', double_damage_to = [''bug''], half_damage_to = [],
             no_damage_to = []\<rparr>
      else if u = ''type/7'' then
        Inr \<lparr>td_name = ''bug'', double_damage_to = [],
             half_damage_to = [''flying'', ''ghost'', ''fire''], no_damage_to = []\<rparr>
      else if u = ''type/8'' then
        Inr \<lparr>td_name = ''ghost'', double_damage_to = [''ghost''], half_damage_to = [],
             no_damage_to = [''normal'']\<rparr>
      else if u = ''type/10'' then
        Inr \<lparr>td_name = ''fire'', double_damage_to = [''bug''], half_damage_to = [''fire''],
             no_damage_to = []\<rparr>
      else Inl HTTPException)"

definition test_upstream :: upstream where
  "test_upstream =
     \<lparr>get_pokemon_data =
        (\<lambda>n. if n = ''charizard'' then Inr charizard
             else if n = ''shedinja'' then Inr shedinja else Inl HTTPException),
      get_move_data =
        (\<lambda>n. if n = ''inferno'' then Inr inferno
             else if n = ''scratch'' then Inr scratch else Inl HTTPException),
      fetch_types = Inr test_types,
      fetch_type = test_fetch_type\<rparr>"

definition test_request :: battle_request where
  "test_request =
     \<lparr>attacker = ''charizard'', defender = ''shedinja'', attacker_moves = Some [''inferno''],
      defender_moves = None, level = Some 50, max_turns = Some 200, random_seed = Some 7\<rparr>"

definition test_chart :: type_chart where
  "test_chart = build_rows test_upstream (map t_name test_types) test_types Map.empty"

definition test_ctx :: battle_ctx where
  "test_ctx = make_ctx test_request charizard shedinja test_chart inferno scratch"

text \<open>A move whose upstream power is negative, and the upstream data extended by it.\<close>

definition backfire :: move where
  "backfire =
     \<lparr>m_name = ''backfire'', m_power = Some (- 10), m_accuracy = Some 100, m_type = ''normal'',
      m_damage_class = Some ''physical'', m_effect_chance = None, m_effect_entries = []\<rparr>"

definition test_upstream_backfire :: upstream where
  "test_upstream_backfire =
     test_upstream\<lparr>get_move_data :=
       (\<lambda>n. if n = ''backfire'' then Inr backfire else get_move_data test_upstream n)\<rparr>"

text \<open>The same upstream data with the record of the type ghost failing to load.\<close>

definition test_upstream_ghost_down :: upstream where
  "test_upstream_ghost_down =
     test_upstream\<lparr>fetch_type :=
       (\<lambda>u. if u = ''type/8'' then Inl HTTPException else test_fetch_type u)\<rparr>"

text \<open>The state of the instance after both actions of its first turn, before the
  end-of-turn damage.\<close>

definition test_turn1 :: "nat battle_state" where
  "test_turn1 =
     run_actions test_random test_ctx True
       ((init_state test_ctx 7)\<lparr>turn := 1, event_log := [TurnLine 1]\<rparr>)"

section \<open>Basic properties of the steps\<close>

subsection \<open>The turn counter and the loop\<close>

lemma turn_attacker_damage [simp]: "turn (attacker_damage R c s g) = turn s"
  by (simp add: attacker_damage_def Let_def split: prod.split)

lemma turn_attacker_inflict [simp]: "turn (attacker_inflict R c s) = turn s"
  by (simp add: attacker_inflict_def Let_def split: prod.split option.split)

lemma turn_attacker_action [simp]: "turn (attacker_action R c s) = turn s"
  by (simp add: attacker_action_def Let_def split: prod.split)

lemma turn_defender_damage [simp]: "turn (defender_damage R c s g) = turn s"
  by (simp add: defender_damage_def Let_def split: prod.split)

lemma turn_defender_inflict [simp]: "turn (defender_inflict R c s) = turn s"
  by (simp add: defender_inflict_def Let_def split: prod.split option.split)

lemma turn_defender_action [simp]: "turn (defender_action R c s) = turn s"
  by (simp add: defender_action_def Let_def split: prod.split)

lemma turn_run_actions [simp]: "turn (run_actions R c b s) = turn s"
  by (simp add: run_actions_def Let_def)

lemma turn_end_of_turn [simp]: "turn (end_of_turn c s) = turn s"
  by (simp add: end_of_turn_def split: prod.split)

lemma turn_turn_body [simp]: "turn (turn_body R c s) = turn s + 1"
  by (simp add: turn_body_def Let_def)

declare battle_loop.simps [simp del]

lemma battle_loop_stop:
  assumes "\<not> running c s"
  shows "battle_loop R c s = s"
proof -
  have "\<not> (turn s < turn_limit c \<and> atk_curr s > 0 \<and> def_curr s > 0)"
    using assms by (simp add: running_def)
  then show ?thesis
    by (subst battle_loop.simps) (simp only: if_False)
qed

lemma battle_loop_step:
  assumes "running c s"
  shows "battle_loop R c s =
     (if fainted (turn_body R c s) then turn_body R c s else battle_loop R c (turn_body R c s))"
proof -
  have "turn s < turn_limit c \<and> atk_curr s > 0 \<and> def_curr s > 0"
    using assms by (simp add: running_def)
  then show ?thesis
    by (subst battle_loop.simps) (simp only: simp_thms if_True Let_def)
qed

lemma battle_loop_invariant:
  assumes "P s"
    and "\<And>t. P t \<Longrightarrow> running c t \<Longrightarrow> P (turn_body R c t)"
  shows "P (battle_loop R c s)"
  using assms
proof (induction R c s rule: battle_loop.induct)
  case (1 R c s)
  show ?case
  proof (cases "running c s")
    case False
    then show ?thesis using "1.prems"(1) by (simp add: battle_loop_stop)
  next
    case True
    then have cond: "turn s < turn_limit c \<and> atk_curr s > 0 \<and> def_curr s > 0"
      by (simp add: running_def)
    have P': "P (turn_body R c s)"
      using "1.prems"(1) True by (rule "1.prems"(2))
    show ?thesis
    proof (cases "fainted (turn_body R c s)")
      case True
      with P' \<open>running c s\<close> show ?thesis by (simp add: battle_loop_step)
    next
      case False
      have "P (battle_loop R c (turn_body R c s))"
        using cond refl False P' "1.prems"(2) by (rule "1.IH")
      with False \<open>running c s\<close> show ?thesis by (simp add: battle_loop_step)
    qed
  qed
qed

lemma battle_loop_turn_upper:
  assumes "turn s \<le> turn_limit c"
  shows "turn (battle_loop R c s) \<le> turn_limit c"
  using assms by (rule battle_loop_invariant) (simp add: running_def)

lemma battle_loop_turn_lower: "turn s \<le> turn (battle_loop R c s)"
proof -
  have "turn s \<le> turn s" by simp
  then show ?thesis
    by (rule battle_loop_invariant [where P = "\<lambda>t. turn s \<le> turn t"]) simp
qed



subsection \<open>Hit points\<close>

lemma calc_damage_ge_1: "1 \<le> fst (calc_damage R lv pw a d m g)"
  by (simp add: calc_damage_def Let_def split: prod.split)

lemma atk_curr_attacker_damage [simp]: "atk_curr (attacker_damage R c s g) = atk_curr s"
  by (simp add: attacker_damage_def Let_def split: prod.split)

lemma atk_status_attacker_damage [simp]: "atk_status (attacker_damage R c s g) = atk_status s"
  by (simp add: attacker_damage_def Let_def split: prod.split)

lemma def_status_attacker_damage [simp]: "def_status (attacker_damage R c s g) = def_status s"
  by (simp add: attacker_damage_def Let_def split: prod.split)

lemma def_curr_attacker_damage:
  "\<exists>dmg. 1 \<le> dmg \<and>
     def_curr (attacker_damage R c s g) =
       (if 0 < power_or_0 (atk_move c) then max 0 (def_curr s - dmg) else def_curr s)"
proof (cases "0 < power_or_0 (atk_move c)")
  case False
  then have "def_curr (attacker_damage R c s g) = def_curr s"
    by (simp add: attacker_damage_def Let_def)
  with False show ?thesis by auto
next
  case True
  obtain u g3 where u: "rnd_random R g = (u, g3)"
    by (cases "rnd_random R g")
  define physical where "physical = (m_damage_class (atk_move c) = Some ''physical'')"
  define res where "res = calc_damage R (lvl c) (power_or_0 (atk_move c))
      (real_of_int (if physical then atk_attack c else atk_sp_atk c) *
         (if atk_status s = Some Burn \<and> physical then 0.5 else 1))
      (real_of_int (if physical then def_attack c else def_sp_atk c))
      ((if m_type (atk_move c) \<in> set (p_types (attacker_data c)) then 1.5 else 1) *
         type_multiplier (type_chart c) (m_type (atk_move c)) (p_types (defender_data c)) *
         (if u < 0.0625 then 1.5 else 1)) g3"
  have "1 \<le> fst res"
    unfolding res_def by (rule calc_damage_ge_1)
  moreover have "def_curr (attacker_damage R c s g) = max 0 (def_curr s - fst res)"
    using True u by (simp add: attacker_damage_def Let_def res_def physical_def split: prod.split)
  ultimately show ?thesis using True by auto
qed

lemma def_curr_attacker_damage_le: "def_curr (attacker_damage R c s g) \<le> max 0 (def_curr s)"
  using def_curr_attacker_damage [of R c s g] by (auto split: if_splits)

lemma def_curr_attacker_damage_ge: "0 \<le> def_curr s \<Longrightarrow> 0 \<le> def_curr (attacker_damage R c s g)"
  using def_curr_attacker_damage [of R c s g] by (auto split: if_splits)

lemma def_curr_attacker_damage_less:
  "0 < power_or_0 (atk_move c) \<Longrightarrow> 0 < def_curr s \<Longrightarrow>
   def_curr (attacker_damage R c s g) < def_curr s"
  using def_curr_attacker_damage [of R c s g] by (auto split: if_splits)

lemma atk_curr_attacker_inflict [simp]: "atk_curr (attacker_inflict R c s) = atk_curr s"
  by (simp add: attacker_inflict_def Let_def split: prod.split option.split)

lemma def_curr_attacker_inflict [simp]: "def_curr (attacker_inflict R c s) = def_curr s"
  by (simp add: attacker_inflict_def Let_def split: prod.split option.split)

lemma atk_status_attacker_inflict [simp]: "atk_status (attacker_inflict R c s) = atk_status s"
  by (simp add: attacker_inflict_def Let_def split: prod.split option.split)

lemma atk_curr_attacker_action [simp]: "atk_curr (attacker_action R c s) = atk_curr s"
  by (simp add: attacker_action_def Let_def split: prod.split)

lemma atk_status_attacker_action [simp]: "atk_status (attacker_action R c s) = atk_status s"
  by (simp add: attacker_action_def Let_def split: prod.split)

lemma def_curr_attacker_action_le: "def_curr (attacker_action R c s) \<le> max 0 (def_curr s)"
  using def_curr_attacker_damage_le [of R c s]
  by (simp add: attacker_action_def Let_def split: prod.split)

lemma def_curr_attacker_action_ge: "0 \<le> def_curr s \<Longrightarrow> 0 \<le> def_curr (attacker_action R c s)"
  using def_curr_attacker_damage_ge [of s R c]
  by (simp add: attacker_action_def Let_def split: prod.split)

lemma def_curr_defender_damage [simp]: "def_curr (defender_damage R c s g) = def_curr s"
  by (simp add: defender_damage_def Let_def split: prod.split)

lemma def_status_defender_damage [simp]: "def_status (defender_damage R c s g) = def_status s"
  by (simp add: defender_damage_def Let_def split: prod.split)

lemma atk_status_defender_damage [simp]: "atk_status (defender_damage R c s g) = atk_status s"
  by (simp add: defender_damage_def Let_def split: prod.split)

lemma atk_curr_defender_damage:
  "\<exists>dmg. 1 \<le> dmg \<and>
     atk_curr (defender_damage R c s g) =
       (if 0 < power_or_0 (def_move c) then max 0 (atk_curr s - dmg) else atk_curr s)"
proof (cases "0 < power_or_0 (def_move c)")
  case False
  then have "atk_curr (defender_damage R c s g) = atk_curr s"
    by (simp add: defender_damage_def Let_def)
  with False show ?thesis by auto
next
  case True
  obtain u g3 where u: "rnd_random R g = (u, g3)"
    by (cases "rnd_random R g")
  define physical where "physical = (m_damage_class (def_move c) = Some ''physical'')"
  define res where "res = calc_damage R (lvl c) (power_or_0 (def_move c))
      (real_of_int (if physical then def_attack c else def_sp_atk c) *
         (if def_status s = Some Burn \<and> physical then 0.5 else 1))
      (real_of_int (if physical then atk_attack c else atk_sp_atk c))
      ((if m_type (def_move c) \<in> set (p_types (defender_data c)) then 1.5 else 1) *
         type_multiplier (type_chart c) (m_type (def_move c)) (p_types (attacker_data c)) *
         (if u < 0.0625 then 1.5 else 1)) g3"
  have "1 \<le> fst res"
    unfolding res_def by (rule calc_damage_ge_1)
  moreover have "atk_curr (defender_damage R c s g) = max 0 (atk_curr s - fst res)"
    using True u by (simp add: defender_damage_def Let_def res_def physical_def split: prod.split)
  ultimately show ?thesis using True by auto
qed

lemma atk_curr_defender_damage_le: "atk_curr (defender_damage R c s g) \<le> max 0 (atk_curr s)"
  using atk_curr_defender_damage [of R c s g] by (auto split: if_splits)

lemma atk_curr_defender_damage_ge: "0 \<le> atk_curr s \<Longrightarrow> 0 \<le> atk_curr (defender_damage R c s g)"
  using atk_curr_defender_damage [of R c s g] by (auto split: if_splits)

lemma atk_curr_defender_damage_less:
  "0 < power_or_0 (def_move c) \<Longrightarrow> 0 < atk_curr s \<Longrightarrow>
   atk_curr (defender_damage R c s g) < atk_curr s"
  using atk_curr_defender_damage [of R c s g] by (auto split: if_splits)

lemma def_curr_defender_inflict [simp]: "def_curr (defender_inflict R c s) = def_curr s"
  by (simp add: defender_inflict_def Let_def split: prod.split option.split)

lemma atk_curr_defender_inflict [simp]: "atk_curr (defender_inflict R c s) = atk_curr s"
  by (simp add: defender_inflict_def Let_def split: prod.split option.split)

lemma def_status_defender_inflict [simp]: "def_status (defender_inflict R c s) = def_status s"
  by (simp add: defender_inflict_def Let_def split: prod.split option.split)

lemma def_curr_defender_action [simp]: "def_curr (defender_action R c s) = def_curr s"
  by (simp add: defender_action_def Let_def split: prod.split)

lemma def_status_defender_action [simp]: "def_status (defender_action R c s) = def_status s"
  by (simp add: defender_action_def Let_def split: prod.split)

lemma atk_curr_defender_action_le: "atk_curr (defender_action R c s) \<le> max 0 (atk_curr s)"
  using atk_curr_defender_damage_le [of R c s]
  by (simp add: defender_action_def Let_def split: prod.split)

lemma atk_curr_defender_action_ge: "0 \<le> atk_curr s \<Longrightarrow> 0 \<le> atk_curr (defender_action R c s)"
  using atk_curr_defender_damage_ge [of s R c]
  by (simp add: defender_action_def Let_def split: prod.split)


lemma hp_step_refl: "0 \<le> atk_curr s \<Longrightarrow> 0 \<le> def_curr s \<Longrightarrow> hp_step s s"
  by (simp add: hp_step_def)

lemma hp_step_trans: "hp_step s t \<Longrightarrow> hp_step t u \<Longrightarrow> hp_step s u"
  by (auto simp add: hp_step_def)

lemma hp_step_nonneg: "hp_step s t \<Longrightarrow> 0 \<le> atk_curr t \<and> 0 \<le> def_curr t"
  by (simp add: hp_step_def)

lemma hp_step_attacker_action:
  assumes "0 \<le> atk_curr s" "0 \<le> def_curr s"
  shows "hp_step s (attacker_action R c s)"
  using assms def_curr_attacker_action_le [of R c s] def_curr_attacker_action_ge [of s R c]
  by (simp add: hp_step_def)

lemma hp_step_defender_action:
  assumes "0 \<le> atk_curr s" "0 \<le> def_curr s"
  shows "hp_step s (defender_action R c s)"
  using assms atk_curr_defender_action_le [of R c s] atk_curr_defender_action_ge [of s R c]
  by (simp add: hp_step_def)

lemma hp_step_run_actions:
  assumes "0 \<le> atk_curr s" "0 \<le> def_curr s"
  shows "hp_step s (run_actions R c b s)"
proof -
  define s1 where "s1 = (if fainted s then s
      else if b then attacker_action R c s else defender_action R c s)"
  have 1: "hp_step s s1"
    unfolding s1_def using assms
    by (simp add: hp_step_refl hp_step_attacker_action hp_step_defender_action)
  then have nn: "0 \<le> atk_curr s1" "0 \<le> def_curr s1"
    by (simp_all add: hp_step_def)
  have run: "run_actions R c b s =
      (if fainted s1 then s1
       else if b then defender_action R c s1 else attacker_action R c s1)"
    by (simp add: run_actions_def s1_def Let_def)
  have "hp_step s1 (run_actions R c b s)"
    unfolding run using nn
    by (simp add: hp_step_refl hp_step_attacker_action hp_step_defender_action)
  with 1 show ?thesis by (rule hp_step_trans)
qed

lemma apply_eot_hp:
  assumes "0 \<le> h"
  shows "0 \<le> fst (apply_eot n st h mh lg) \<and> fst (apply_eot n st h mh lg) \<le> h"
proof -
  have "(0::int) \<le> max 1 x" for x by simp
  then show ?thesis
    using assms by (simp add: apply_eot_def Let_def)
qed

lemma hp_step_end_of_turn:
  assumes "0 \<le> atk_curr s" "0 \<le> def_curr s"
  shows "hp_step s (end_of_turn c s)"
proof -
  obtain a lg1 where a: "apply_eot (p_name (attacker_data c)) (atk_status s) (atk_curr s)
      (atk_hp c) (event_log s) = (a, lg1)"
    by (cases "apply_eot (p_name (attacker_data c)) (atk_status s) (atk_curr s)
      (atk_hp c) (event_log s)")
  obtain d lg2 where d: "apply_eot (p_name (defender_data c)) (def_status s) (def_curr s)
      (def_hp c) lg1 = (d, lg2)"
    by (cases "apply_eot (p_name (defender_data c)) (def_status s) (def_curr s)
      (def_hp c) lg1")
  have "0 \<le> a \<and> a \<le> atk_curr s"
    using apply_eot_hp [OF assms(1), of "p_name (attacker_data c)" "atk_status s" "atk_hp c"
        "event_log s"] a by simp
  moreover have "0 \<le> d \<and> d \<le> def_curr s"
    using apply_eot_hp [OF assms(2), of "p_name (defender_data c)" "def_status s" "def_hp c" lg1] d
    by simp
  ultimately show ?thesis
    by (simp add: end_of_turn_def a d hp_step_def)
qed

lemma hp_step_turn_body:
  assumes "0 \<le> atk_curr s" "0 \<le> def_curr s"
  shows "hp_step s (turn_body R c s)"
proof -
  define s0 where "s0 = s\<lparr>turn := turn s + 1, event_log := event_log s @ [TurnLine (turn s + 1)]\<rparr>"
  define b where "b = (real_of_int (atk_speed c) * (if atk_status s0 = Some Paralysis then 0.5 else 1)
      \<ge> real_of_int (def_speed c) * (if def_status s0 = Some Paralysis then 0.5 else 1))"
  have tb: "turn_body R c s = end_of_turn c (run_actions R c b s0)"
    by (simp add: turn_body_def Let_def s0_def b_def)
  have "0 \<le> atk_curr s0" "0 \<le> def_curr s0"
    using assms by (simp_all add: s0_def)
  then have 1: "hp_step s0 (run_actions R c b s0)"
    by (rule hp_step_run_actions)
  then have "hp_step (run_actions R c b s0) (end_of_turn c (run_actions R c b s0))"
    by (intro hp_step_end_of_turn) (simp_all add: hp_step_def)
  with 1 have "hp_step s0 (turn_body R c s)"
    unfolding tb by (rule hp_step_trans)
  then show ?thesis
    by (simp add: hp_step_def s0_def)
qed

lemma hp_step_battle_loop:
  fixes s :: "'g battle_state"
  assumes "0 \<le> atk_curr s" "0 \<le> def_curr s"
  shows "hp_step s (battle_loop R c s)"
proof (rule battle_loop_invariant [where P = "hp_step s"])
  show "hp_step s s" using assms by (rule hp_step_refl)
next
  fix t :: "'g battle_state"
  assume t: "hp_step s t"
  then have "hp_step t (turn_body R c t)"
    by (intro hp_step_turn_body) (simp_all add: hp_step_def)
  with t show "hp_step s (turn_body R c t)" by (rule hp_step_trans)
qed


subsection \<open>The event log\<close>

lemma log_attacker_damage: "\<exists>ls. event_log (attacker_damage R c s g) = event_log s @ ls"
  by (simp add: attacker_damage_def Let_def split: prod.split)

lemma log_attacker_inflict: "\<exists>ls. event_log (attacker_inflict R c s) = event_log s @ ls"
  by (simp add: attacker_inflict_def Let_def split: prod.split option.split)

lemma log_attacker_action: "\<exists>ls. event_log (attacker_action R c s) = event_log s @ ls"
proof -
  have "\<exists>ls. event_log (attacker_inflict R c (attacker_damage R c s g)) = event_log s @ ls" for g
    using log_attacker_damage [of R c s g] log_attacker_inflict [of R c "attacker_damage R c s g"]
    by auto
  then show ?thesis
    by (simp add: attacker_action_def Let_def split: prod.split)
qed

lemma log_defender_damage: "\<exists>ls. event_log (defender_damage R c s g) = event_log s @ ls"
  by (simp add: defender_damage_def Let_def split: prod.split)

lemma log_defender_inflict: "\<exists>ls. event_log (defender_inflict R c s) = event_log s @ ls"
  by (simp add: defender_inflict_def Let_def split: prod.split option.split)

lemma log_defender_action: "\<exists>ls. event_log (defender_action R c s) = event_log s @ ls"
proof -
  have "\<exists>ls. event_log (defender_inflict R c (defender_damage R c s g)) = event_log s @ ls" for g
    using log_defender_damage [of R c s g] log_defender_inflict [of R c "defender_damage R c s g"]
    by auto
  then show ?thesis
    by (simp add: defender_action_def Let_def split: prod.split)
qed

lemma log_run_actions: "\<exists>ls. event_log (run_actions R c b s) = event_log s @ ls"
proof -
  define s1 where "s1 = (if fainted s then s
      else if b then attacker_action R c s else defender_action R c s)"
  have 1: "\<exists>ls. event_log s1 = event_log s @ ls"
    unfolding s1_def using log_attacker_action [of R c s] log_defender_action [of R c s] by simp
  have run: "run_actions R c b s =
      (if fainted s1 then s1
       else if b then defender_action R c s1 else attacker_action R c s1)"
    by (simp add: run_actions_def s1_def Let_def)
  have "\<exists>ls. event_log (run_actions R c b s) = event_log s1 @ ls"
    unfolding run using log_attacker_action [of R c s1] log_defender_action [of R c s1] by simp
  with 1 show ?thesis by auto
qed

lemma log_apply_eot: "\<exists>ls. snd (apply_eot n st h mh lg) = lg @ ls"
  by (simp add: apply_eot_def Let_def)

lemma log_end_of_turn: "\<exists>ls. event_log (end_of_turn c s) = event_log s @ ls"
proof -
  obtain a lg1 where a: "apply_eot (p_name (attacker_data c)) (atk_status s) (atk_curr s)
      (atk_hp c) (event_log s) = (a, lg1)"
    by (cases "apply_eot (p_name (attacker_data c)) (atk_status s) (atk_curr s)
      (atk_hp c) (event_log s)")
  obtain d lg2 where d: "apply_eot (p_name (defender_data c)) (def_status s) (def_curr s)
      (def_hp c) lg1 = (d, lg2)"
    by (cases "apply_eot (p_name (defender_data c)) (def_status s) (def_curr s)
      (def_hp c) lg1")
  have "\<exists>ls. lg1 = event_log s @ ls"
    using log_apply_eot [of "p_name (attacker_data c)" "atk_status s" "atk_curr s" "atk_hp c"
        "event_log s"] a by simp
  moreover have "\<exists>ls. lg2 = lg1 @ ls"
    using log_apply_eot [of "p_name (defender_data c)" "def_status s" "def_curr s" "def_hp c" lg1] d
    by simp
  ultimately show ?thesis
    by (auto simp add: end_of_turn_def a d)
qed

lemma log_turn_body:
  "\<exists>ls. event_log (turn_body R c s) = event_log s @ TurnLine (turn s + 1) # ls"
proof -
  define s0 where "s0 = s\<lparr>turn := turn s + 1, event_log := event_log s @ [TurnLine (turn s + 1)]\<rparr>"
  define b where "b = (real_of_int (atk_speed c) * (if atk_status s0 = Some Paralysis then 0.5 else 1)
      \<ge> real_of_int (def_speed c) * (if def_status s0 = Some Paralysis then 0.5 else 1))"
  have tb: "turn_body R c s = end_of_turn c (run_actions R c b s0)"
    by (simp add: turn_body_def Let_def s0_def b_def)
  obtain ls1 where 1: "event_log (run_actions R c b s0) = event_log s0 @ ls1"
    using log_run_actions [of R c b s0] by auto
  obtain ls2 where 2: "event_log (turn_body R c s) = event_log (run_actions R c b s0) @ ls2"
    unfolding tb using log_end_of_turn [of c "run_actions R c b s0"] by auto
  have 0: "event_log s0 = event_log s @ [TurnLine (turn s + 1)]"
    by (simp add: s0_def)
  have "event_log (turn_body R c s) = event_log s @ TurnLine (turn s + 1) # (ls1 @ ls2)"
    by (simp add: 0 1 2)
  then show ?thesis ..
qed

lemma log_battle_loop:
  fixes s :: "'g battle_state"
  shows "\<exists>ls. event_log (battle_loop R c s) = event_log s @ ls"
proof (rule battle_loop_invariant [where P = "\<lambda>t. \<exists>ls. event_log t = event_log s @ ls"])
  show "\<exists>ls. event_log s = event_log s @ ls" by simp
next
  fix t :: "'g battle_state"
  assume "\<exists>ls. event_log t = event_log s @ ls"
  then show "\<exists>ls. event_log (turn_body R c t) = event_log s @ ls"
    using log_turn_body [of R c t] by auto
qed

subsection \<open>The number of turns\<close>

lemma compute_hp_from_base_ge_1: "1 \<le> compute_hp_from_base b lv"
  by (simp add: compute_hp_from_base_def)

lemma make_ctx_hp: "1 \<le> atk_hp (make_ctx req ad dd chart am dm) \<and>
    1 \<le> def_hp (make_ctx req ad dd chart am dm)"
  by (simp add: make_ctx_def Let_def compute_hp_from_base_ge_1)

lemma turn_limit_make_ctx:
  "turn_limit (make_ctx req ad dd chart am dm) = int_or (max_turns req) 200"
  by (simp add: make_ctx_def Let_def)

lemma simulate_battle_Inr:
  fixes R :: "'g random_module"
  assumes "simulate_battle R U cache req g0 = Inr out"
  shows "\<exists>c. \<exists>g :: 'g. turn_limit c = int_or (max_turns req) 200 \<and> 1 \<le> atk_hp c \<and> 1 \<le> def_hp c \<and>
           out = outcome c (battle_loop R c (init_state c g))"
  using assms make_ctx_hp turn_limit_make_ctx
  by (fastforce simp add: simulate_battle_def simulate_battle_among_def Let_def
      split: sum.splits prod.splits)

lemma turns_within_limit:
  fixes R :: "'g random_module"
  assumes "simulate_battle R U cache req g0 = Inr out"
  shows "0 \<le> turns out \<and> turns out \<le> max 0 (int_or (max_turns req) 200)"
proof -
  obtain c and g :: 'g where c: "turn_limit c = int_or (max_turns req) 200"
    and out: "out = outcome c (battle_loop R c (init_state c g))"
    using simulate_battle_Inr [OF assms] by blast
  let ?s = "init_state c g"
  have low: "turn ?s \<le> turn (battle_loop R c ?s)"
    by (rule battle_loop_turn_lower)
  have up: "turn (battle_loop R c ?s) \<le> max 0 (turn_limit c)"
  proof (cases "0 \<le> turn_limit c")
    case True
    then have "turn ?s \<le> turn_limit c" by (simp add: init_state_def)
    then have "turn (battle_loop R c ?s) \<le> turn_limit c" by (rule battle_loop_turn_upper)
    then show ?thesis by simp
  next
    case False
    then have "\<not> running c ?s" by (simp add: running_def init_state_def)
    then have "battle_loop R c ?s = ?s" by (rule battle_loop_stop)
    then show ?thesis by (simp add: init_state_def)
  qed
  from low up show ?thesis
    by (simp add: out outcome_def c init_state_def)
qed

lemma zero_max_turns_is_200:
  fixes R :: "'g random_module"
  assumes "max_turns req = Some 0"
    and "simulate_battle R U cache req g0 = Inr out"
  shows "1 \<le> turns out \<and> out_log out \<noteq> []"
proof -
  obtain c and g :: 'g where c: "turn_limit c = int_or (max_turns req) 200"
    and hp: "1 \<le> atk_hp c" "1 \<le> def_hp c"
    and out: "out = outcome c (battle_loop R c (init_state c g))"
    using simulate_battle_Inr [OF assms(2)] by blast
  let ?s = "init_state c g"
  let ?t = "turn_body R c ?s"
  have "turn_limit c = 200"
    using assms(1) by (simp add: c int_or_def)
  with hp have run: "running c ?s"
    by (simp add: running_def init_state_def)
  have t1: "turn ?t = 1" by (simp add: init_state_def)
  obtain ls where lg: "event_log ?t = TurnLine 1 # ls"
    using log_turn_body [of R c ?s] by (auto simp add: init_state_def)
  have "1 \<le> turn (battle_loop R c ?s) \<and> event_log (battle_loop R c ?s) \<noteq> []"
  proof (cases "fainted ?t")
    case True
    then have "battle_loop R c ?s = ?t" using run by (simp add: battle_loop_step)
    then show ?thesis using t1 lg by simp
  next
    case False
    then have eq: "battle_loop R c ?s = battle_loop R c ?t" using run by (simp add: battle_loop_step)
    have "turn ?t \<le> turn (battle_loop R c ?t)" by (rule battle_loop_turn_lower)
    moreover obtain ls' where "event_log (battle_loop R c ?t) = event_log ?t @ ls'"
      using log_battle_loop [of R c ?t] by auto
    ultimately show ?thesis using t1 lg eq by simp
  qed
  then show ?thesis by (simp add: out outcome_def)
qed


subsection \<open>The branches of an action\<close>

lemma attacker_action_cases:
  "attacker_action R c s =
     (if fst (paralysis_skip R (atk_status s) (rng s))
      then s\<lparr>event_log := event_log s @ [ParalyzedLine (p_name (attacker_data c))],
             rng := snd (paralysis_skip R (atk_status s) (rng s))\<rparr>
      else if \<not> fst (hits R (m_accuracy (atk_move c)) (snd (paralysis_skip R (atk_status s) (rng s))))
      then s\<lparr>event_log := event_log s @
                 [MissedLine (p_name (attacker_data c)) (m_name (atk_move c))],
             rng := snd (hits R (m_accuracy (atk_move c))
                      (snd (paralysis_skip R (atk_status s) (rng s))))\<rparr>
      else attacker_inflict R c (attacker_damage R c s
             (snd (hits R (m_accuracy (atk_move c))
                (snd (paralysis_skip R (atk_status s) (rng s)))))))"
  by (simp add: attacker_action_def Let_def split: prod.split)

lemma defender_action_cases:
  "defender_action R c s =
     (if fst (paralysis_skip R (def_status s) (rng s))
      then s\<lparr>event_log := event_log s @ [ParalyzedLine (p_name (defender_data c))],
             rng := snd (paralysis_skip R (def_status s) (rng s))\<rparr>
      else if \<not> fst (hits R (m_accuracy (def_move c)) (snd (paralysis_skip R (def_status s) (rng s))))
      then s\<lparr>event_log := event_log s @
                 [MissedLine (p_name (defender_data c)) (m_name (def_move c))],
             rng := snd (hits R (m_accuracy (def_move c))
                      (snd (paralysis_skip R (def_status s) (rng s))))\<rparr>
      else defender_inflict R c (defender_damage R c s
             (snd (hits R (m_accuracy (def_move c))
                (snd (paralysis_skip R (def_status s) (rng s)))))))"
  by (simp add: defender_action_def Let_def split: prod.split)

subsection \<open>Hits that land, and the end-of-turn damage\<close>

lemma py_int_div:
  "0 \<le> a \<Longrightarrow> py_int (real_of_int a / 16) = a div 16 \<and> py_int (real_of_int a / 8) = a div 8"
  by (simp add: py_int_def floor_divide_of_int_eq [of a 16, simplified]
      floor_divide_of_int_eq [of a 8, simplified])

lemma def_curr_attacker_action_hit:
  assumes "\<not> fst (paralysis_skip R (atk_status s) (rng s))"
    and "fst (hits R (m_accuracy (atk_move c)) (snd (paralysis_skip R (atk_status s) (rng s))))"
    and "0 < power_or_0 (atk_move c)" and "0 < def_curr s"
  shows "def_curr (attacker_action R c s) \<le> def_curr s - 1"
  using assms(1,2) def_curr_attacker_damage_less [OF assms(3,4), of R]
  by (simp add: attacker_action_cases)

lemma atk_curr_defender_action_hit:
  assumes "\<not> fst (paralysis_skip R (def_status s) (rng s))"
    and "fst (hits R (m_accuracy (def_move c)) (snd (paralysis_skip R (def_status s) (rng s))))"
    and "0 < power_or_0 (def_move c)" and "0 < atk_curr s"
  shows "atk_curr (defender_action R c s) \<le> atk_curr s - 1"
  using assms(1,2) atk_curr_defender_damage_less [OF assms(3,4), of R]
  by (simp add: defender_action_cases)

lemma apply_eot_burn:
  "0 \<le> mh \<Longrightarrow>
   apply_eot n (Some Burn) h mh lg =
     (max 0 (h - max 1 (mh div 16)), lg @ [BurnLine n (max 1 (mh div 16))])"
  by (simp add: apply_eot_def py_int_div Let_def)

lemma apply_eot_poison:
  "0 \<le> mh \<Longrightarrow>
   apply_eot n (Some Poison) h mh lg =
     (max 0 (h - max 1 (mh div 8)), lg @ [PoisonLine n (max 1 (mh div 8))])"
  by (simp add: apply_eot_def py_int_div Let_def)

lemma apply_eot_other:
  "st \<noteq> Some Burn \<Longrightarrow> st \<noteq> Some Poison \<Longrightarrow> apply_eot n st h mh lg = (h, lg)"
  by (simp add: apply_eot_def)

subsection \<open>Move selection\<close>

lemma hd_sort_key_first_least:
  fixes f :: "'a \<Rightarrow> int"
  assumes "xs \<noteq> []"
  shows "\<exists>pre post. xs = pre @ hd (sort_key f xs) # post \<and>
           (\<forall>x\<in>set pre. f (hd (sort_key f xs)) < f x) \<and>
           (\<forall>x\<in>set post. f (hd (sort_key f xs)) \<le> f x)"
proof -
  define ys where "ys = sort_key f xs"
  have ne: "ys \<noteq> []"
    using assms by (metis length_sort length_0_conv ys_def)
  then obtain m rest where ys: "ys = m # rest"
    by (cases ys) auto
  have srt: "sorted (map f ys)"
    by (simp add: ys_def)
  have least: "f m \<le> f x" if "x \<in> set xs" for x
  proof -
    from that have "x \<in> set ys" by (simp add: ys_def)
    with srt ys show ?thesis by auto
  qed
  have "filter (\<lambda>y. f y = f m) xs = filter (\<lambda>y. f y = f m) ys"
    by (simp add: ys_def sort_key_stable)
  also have "\<dots> = m # filter (\<lambda>y. f y = f m) rest"
    by (simp add: ys)
  finally obtain pre post where xs: "xs = pre @ m # post"
    and pre: "\<forall>u\<in>set pre. f u \<noteq> f m"
    by (auto simp add: filter_eq_Cons_iff)
  have "\<forall>x\<in>set pre. f m < f x"
  proof
    fix x assume x: "x \<in> set pre"
    then have "f m \<le> f x" using least xs by simp
    moreover have "f x \<noteq> f m" using pre x by simp
    ultimately show "f m < f x" by simp
  qed
  moreover have "\<forall>x\<in>set post. f m \<le> f x"
    using least xs by simp
  ultimately show ?thesis
    using xs ys by (auto simp add: ys_def)
qed

lemma scan_candidates_filter:
  "scan_candidates U names =
     filter is_candidate
       (concat (map (\<lambda>n. case get_move_data U n of Inl e \<Rightarrow> [] | Inr md \<Rightarrow> [md]) names))"
  by (induction names) (simp_all split: sum.split)

lemma is_candidate_power_or_0:
  "is_candidate md =
     (power_or_0 md \<noteq> 0 \<and>
      (m_damage_class md = Some ''physical'' \<or> m_damage_class md = Some ''special''))"
  by (simp add: is_candidate_def power_or_0_def split: option.split)

lemma first_loaded_none: "provided = None \<or> provided = Some [] \<Longrightarrow>
  (case provided of None \<Rightarrow> None | Some names \<Rightarrow> first_loaded U names) = None"
  by auto

subsection \<open>The type chart\<close>

lemma set_all_lookup: "set_all v ds row d = (if d \<in> set ds then Some v else row d)"
  by (induction ds arbitrary: row) auto

lemma fill_row_lookup:
  "fill_row names tdata row d =
     (if d \<in> set (no_damage_to tdata) \<or> d \<in> set (half_damage_to tdata) \<or>
         d \<in> set (double_damage_to tdata) \<or> d \<in> set names
      then Some (declared_multiplier tdata d) else row d)"
  by (simp add: fill_row_def set_all_lookup declared_multiplier_def)

lemma declared_multiplier_value: "multiplier_value (declared_multiplier tdata d)"
  by (simp add: declared_multiplier_def multiplier_value_def)

lemma row_built_fill_row:
  assumes "t \<in> set types_list" and "fetch_type U (t_url t) = Inr tdata"
    and "\<forall>d v. row d = Some v \<longrightarrow> multiplier_value v"
  shows "row_built U types_list (td_name tdata) (fill_row (map t_name types_list) tdata row)"
  unfolding row_built_def
proof (intro conjI bexI [of _ t] exI [of _ tdata] ballI allI impI)
  show "fetch_type U (t_url t) = Inr tdata" "td_name tdata = td_name tdata" "t \<in> set types_list"
    using assms by simp_all
next
  fix d assume "d \<in> set (map t_name types_list)"
  then show "fill_row (map t_name types_list) tdata row d = Some (declared_multiplier tdata d)"
    by (simp add: fill_row_lookup)
next
  fix d v assume "fill_row (map t_name types_list) tdata row d = Some v"
  then show "multiplier_value v"
    using assms(3) declared_multiplier_value [of tdata d]
    by (auto simp add: fill_row_lookup split: if_splits)
qed

lemma build_rows_built:
  assumes "set ts \<subseteq> set types_list"
    and "\<forall>atk row. chart atk = Some row \<longrightarrow> row_built U types_list atk row"
  shows "\<forall>atk row. build_rows U (map t_name types_list) ts chart atk = Some row \<longrightarrow> row_built U types_list atk row"
  using assms
proof (induction ts arbitrary: chart)
  case Nil
  then show ?case by simp
next
  case (Cons t ts)
  show ?case
  proof (cases "fetch_type U (t_url t)")
    case (Inl e)
    then show ?thesis using Cons by simp
  next
    case (Inr tdata)
    define row0 where "row0 = (case chart (td_name tdata) of None \<Rightarrow> Map.empty | Some r \<Rightarrow> r)"
    define chart' where "chart' = chart(td_name tdata \<mapsto> fill_row (map t_name types_list) tdata row0)"
    have "\<forall>d v. row0 d = Some v \<longrightarrow> multiplier_value v"
      using Cons.prems(2) by (auto simp add: row0_def row_built_def split: option.splits)
    moreover have "t \<in> set types_list" using Cons.prems(1) by simp
    ultimately have "row_built U types_list (td_name tdata) (fill_row (map t_name types_list) tdata row0)"
      using Inr by (intro row_built_fill_row)
    then have "\<forall>atk row. chart' atk = Some row \<longrightarrow> row_built U types_list atk row"
      using Cons.prems(2) by (simp add: chart'_def)
    moreover have "set ts \<subseteq> set types_list" using Cons.prems(1) by simp
    ultimately have "\<forall>atk row. build_rows U (map t_name types_list) ts chart' atk = Some row \<longrightarrow>
        row_built U types_list atk row"
      by (intro Cons.IH)
    then show ?thesis
      by (simp add: Inr Let_def chart'_def row0_def)
  qed
qed

lemma build_rows_keeps_keys:
  "chart k \<noteq> None \<Longrightarrow> build_rows U names ts chart k \<noteq> None"
  by (induction ts arbitrary: chart) (simp_all add: Let_def split: sum.split)

lemma build_rows_loaded_key:
  assumes "t \<in> set ts" and "fetch_type U (t_url t) = Inr tdata"
  shows "build_rows U names ts chart (td_name tdata) \<noteq> None"
  using assms
proof (induction ts arbitrary: chart)
  case Nil
  then show ?case by simp
next
  case (Cons a ts)
  show ?case
  proof (cases "a = t")
    case True
    then show ?thesis
      using Cons.prems(2) by (simp add: Let_def build_rows_keeps_keys)
  next
    case False
    then have "t \<in> set ts" using Cons.prems(1) by simp
    then show ?thesis
      using Cons.IH Cons.prems(2) by (simp add: Let_def split: sum.split)
  qed
qed


subsection \<open>Damage on doubles\<close>

lemma fin_withinE:
  assumes "fin_within b x"
  obtains r where "x = Fin r" and "\<bar>r\<bar> \<le> b"
  using assms by (cases x) (simp_all add: fin_within_def)

lemma fin_within_Fin [simp]: "fin_within b (Fin r) = (\<bar>r\<bar> \<le> b)"
  by (simp add: fin_within_def)

lemma to_double_within:
  assumes "rounds_near rd" and "2 * \<bar>r\<bar> \<le> c" and "c < double_limit"
  shows "fin_within c (to_double rd r)"
proof -
  have "\<bar>r\<bar> < double_limit" using assms(2,3) by simp
  then have "to_double rd r = Fin (rd r)"
    by (simp add: to_double_def abs_less_iff)
  moreover have "\<bar>rd r\<bar> \<le> 2 * \<bar>r\<bar>"
    using assms(1) by (simp add: rounds_near_def)
  ultimately show ?thesis using assms(2) by simp
qed

lemma abs_mult_le:
  fixes x y :: real
  assumes "\<bar>x\<bar> \<le> a" and "\<bar>y\<bar> \<le> b"
  shows "\<bar>x * y\<bar> \<le> a * b"
proof -
  have "\<bar>x\<bar> * \<bar>y\<bar> \<le> a * b"
    using assms by (intro mult_mono) simp_all
  then show ?thesis by (simp add: abs_mult)
qed

lemma float_mul_within:
  assumes "rounds_near rd" and "fin_within a x" and "fin_within b y"
    and "2 * (a * b) \<le> c" and "c < double_limit"
  shows "fin_within c (float_mul rd x y)"
proof -
  from assms(2) obtain r where x: "x = Fin r" and r: "\<bar>r\<bar> \<le> a" by (rule fin_withinE)
  from assms(3) obtain s where y: "y = Fin s" and s: "\<bar>s\<bar> \<le> b" by (rule fin_withinE)
  have "\<bar>r * s\<bar> \<le> a * b" using r s by (rule abs_mult_le)
  then have "2 * \<bar>r * s\<bar> \<le> c" using assms(4) by simp
  then show ?thesis
    unfolding x y float_mul.simps using assms(1,5) by (intro to_double_within)
qed

lemma float_add_within:
  assumes "rounds_near rd" and "fin_within a x" and "fin_within b y"
    and "2 * (a + b) \<le> c" and "c < double_limit"
  shows "fin_within c (float_add rd x y)"
proof -
  from assms(2) obtain r where x: "x = Fin r" and r: "\<bar>r\<bar> \<le> a" by (rule fin_withinE)
  from assms(3) obtain s where y: "y = Fin s" and s: "\<bar>s\<bar> \<le> b" by (rule fin_withinE)
  have "\<bar>r + s\<bar> \<le> a + b" using r s by simp
  then have "2 * \<bar>r + s\<bar> \<le> c" using assms(4) by simp
  then show ?thesis
    unfolding x y float_add.simps using assms(1,5) by (intro to_double_within)
qed

lemma max_1_cases: "(\<exists>r. max_1 d = Fin r \<and> 1 \<le> r) \<or> max_1 d = PosInf"
  by (cases d) (simp_all add: max_1_def)

lemma float_div_by_large:
  assumes "rounds_near rd" and "fin_within a x" and "y = PosInf \<or> (\<exists>s. y = Fin s \<and> 1 \<le> \<bar>s\<bar>)"
    and "2 * a \<le> c" and "c < double_limit"
  shows "\<exists>z. float_div rd x y = Inr z \<and> fin_within c z"
proof -
  from assms(2) obtain r where x: "x = Fin r" and r: "\<bar>r\<bar> \<le> a" by (rule fin_withinE)
  from assms(3) show ?thesis
  proof
    assume "y = PosInf"
    then show ?thesis using x r assms(4) by simp
  next
    assume "\<exists>s. y = Fin s \<and> 1 \<le> \<bar>s\<bar>"
    then obtain s where y: "y = Fin s" and s: "1 \<le> \<bar>s\<bar>" by blast
    have "\<bar>r\<bar> / \<bar>s\<bar> \<le> \<bar>r\<bar> / 1"
      using s by (intro divide_left_mono) simp_all
    then have "\<bar>r / s\<bar> \<le> \<bar>r\<bar>"
      by (simp add: abs_divide)
    then have "2 * \<bar>r / s\<bar> \<le> c" using r assms(4) by simp
    then have "fin_within c (to_double rd (r / s))"
      using assms(1,5) by (intro to_double_within)
    moreover have "s \<noteq> 0" using s by auto
    ultimately show ?thesis by (simp add: x y)
  qed
qed

lemma float_of_int_within:
  assumes "rounds_near rd" and "2 * \<bar>real_of_int n\<bar> \<le> c" and "c < double_limit"
  shows "\<exists>z. float_of_int rd n = Inr z \<and> fin_within c z"
proof -
  have lt: "\<bar>real_of_int n\<bar> < double_limit" using assms(2,3) by simp
  have "\<bar>rd (real_of_int n)\<bar> \<le> 2 * \<bar>real_of_int n\<bar>"
    using assms(1) by (simp add: rounds_near_def)
  then show ?thesis
    using lt assms(2) by (simp add: float_of_int_def)
qed

lemma int_truediv_within:
  assumes "rounds_near rd" and "b \<noteq> 0" and "2 * \<bar>real_of_int a / real_of_int b\<bar> \<le> c"
    and "c < double_limit"
  shows "\<exists>z. int_truediv rd a b = Inr z \<and> fin_within c z"
proof -
  define q where "q = real_of_int a / real_of_int b"
  have 2: "2 * \<bar>q\<bar> \<le> c"
    using assms(3) by (simp only: q_def)
  have "0 \<le> \<bar>q\<bar>" by (rule abs_ge_zero)
  with 2 assms(4) have "\<not> double_limit \<le> \<bar>q\<bar>" by linarith
  then have "int_truediv rd a b = Inr (Fin (rd q))"
    unfolding int_truediv_def q_def [symmetric] using assms(2) by (simp only: if_False)
  moreover have "\<bar>rd q\<bar> \<le> 2 * \<bar>q\<bar>"
    using assms(1) unfolding rounds_near_def by blast
  then have "fin_within c (Fin (rd q))"
    using 2 by simp
  ultimately show ?thesis by blast
qed

lemma py_bind_Inr: "py_bind m f = Inr r \<longleftrightarrow> (\<exists>x. m = Inr x \<and> f x = Inr r)"
  by (cases m) (simp_all add: py_bind_def)

lemma py_bind_Inl:
  "py_bind m f = Inl e \<longleftrightarrow> (m = Inl e \<or> (\<exists>x. m = Inr x \<and> f x = Inl e))"
  by (cases m) (simp_all add: py_bind_def)

lemma calc_damage_float_ge_1:
  assumes "calc_damage_float rd R lv pw attack defense modifier g = Inr (dmg, g')"
  shows "1 \<le> dmg"
proof -
  from assms obtain t6 where
    last: "(let base = float_add rd t6 (Fin 2)
        in case rnd_uniform R 0.85 1.0 g of
             (rand, g') \<Rightarrow>
               py_bind (float_to_int (float_mul rd (float_mul rd base modifier) (Fin rand)))
                 (\<lambda>dmg. Inr (max 1 dmg, g'))) = Inr (dmg, g')"
    unfolding calc_damage_float_def py_bind_Inr by blast
  then obtain n where "dmg = max 1 n"
    by (auto simp add: Let_def py_bind_Inr split: prod.splits)
  then show ?thesis by simp
qed


lemma float_div_max_1_no_zero: "float_div rd x (max_1 d) \<noteq> Inl ZeroDivisionError"
proof -
  from max_1_cases [of d] show ?thesis
  proof
    assume "\<exists>r. max_1 d = Fin r \<and> 1 \<le> r"
    then obtain r where "max_1 d = Fin r" "1 \<le> r" by blast
    then show ?thesis by (cases x) simp_all
  next
    assume "max_1 d = PosInf"
    then show ?thesis by (cases x) simp_all
  qed
qed

lemma float_div_50_no_zero: "float_div rd x (Fin 50) \<noteq> Inl ZeroDivisionError"
  by (cases x) simp_all

lemma float_to_int_no_zero: "float_to_int x \<noteq> Inl ZeroDivisionError"
  by (cases x) (simp_all add: float_to_int_def)

lemma calc_damage_float_no_zero_division:
  "calc_damage_float rd R lv pw attack defense modifier g \<noteq> Inl ZeroDivisionError"
proof
  assume z: "calc_damage_float rd R lv pw attack defense modifier g = Inl ZeroDivisionError"
  have 1: "int_truediv rd (2 * lv) 5 \<noteq> Inl ZeroDivisionError"
    by (simp add: int_truediv_def)
  have 2: "float_of_int rd pw \<noteq> Inl ZeroDivisionError"
    by (simp add: float_of_int_def)
  note 3 = float_div_max_1_no_zero [of rd attack defense]
  from z 1 2 3 obtain t6 where
    last: "(let base = float_add rd t6 (Fin 2)
        in case rnd_uniform R 0.85 1.0 g of
             (rand, g') \<Rightarrow>
               py_bind (float_to_int (float_mul rd (float_mul rd base modifier) (Fin rand)))
                 (\<lambda>dmg. Inr (max 1 dmg, g'))) = Inl ZeroDivisionError"
    unfolding calc_damage_float_def py_bind_Inl using float_div_50_no_zero [of rd] by blast
  then show False
    using float_to_int_no_zero by (auto simp add: Let_def py_bind_Inl split: prod.splits)
qed

lemma calc_damage_float_defense_0:
  "calc_damage_float rd R lv pw attack (Fin 0) modifier g =
   calc_damage_float rd R lv pw attack (Fin 1) modifier g"
  by (simp add: calc_damage_float_def max_1_def)

lemma rounds_near_0: "rounds_near rd \<Longrightarrow> rd 0 = 0"
  unfolding rounds_near_def by (drule spec [of _ 0]) simp

lemma calc_damage_float_returns:
  assumes rd: "rounds_near rd"
    and lv: "\<bar>lv\<bar> \<le> 10 ^ 6" and pw: "\<bar>pw\<bar> \<le> 10 ^ 6"
    and a: "\<bar>a\<bar> \<le> 10 ^ 6" and m: "\<bar>m\<bar> \<le> 10 ^ 6"
    and rand: "\<bar>fst (rnd_uniform R 0.85 1.0 g)\<bar> \<le> 1"
  shows "\<exists>dmg. calc_damage_float rd R lv pw (Fin a) defense (Fin m) g =
             Inr (dmg, snd (rnd_uniform R 0.85 1.0 g)) \<and>
           1 \<le> dmg \<and> (m = 0 \<longrightarrow> dmg = 1)"
proof -
  have lim: "c \<le> 10 ^ 33 \<Longrightarrow> c < double_limit" for c :: real
    by (simp add: double_limit_def)
  have "\<bar>real_of_int (2 * lv) / real_of_int 5\<bar> = 2 * real_of_int \<bar>lv\<bar> / 5"
    by simp
  also have "\<dots> \<le> 2 * 10 ^ 6 / 5"
    using lv by simp
  finally have "2 * \<bar>real_of_int (2 * lv) / real_of_int 5\<bar> \<le> 10 ^ 6"
    by simp
  then obtain t1 where t1: "int_truediv rd (2 * lv) 5 = Inr t1" and b1: "fin_within (10 ^ 6) t1"
    using int_truediv_within [OF rd, of 5 "2 * lv" "10 ^ 6"] lim by auto
  let ?t2 = "float_add rd t1 (Fin 2)"
  have b2: "fin_within (10 ^ 7) ?t2"
    by (rule float_add_within [OF rd b1, of 2]) (simp_all add: lim)
  have "2 * \<bar>real_of_int pw\<bar> \<le> 10 ^ 7"
    using pw by simp
  then obtain fpw where fpw: "float_of_int rd pw = Inr fpw" and bp: "fin_within (10 ^ 7) fpw"
    using float_of_int_within [OF rd, of pw "10 ^ 7"] lim by auto
  let ?t3 = "float_mul rd ?t2 fpw"
  have b3: "fin_within (10 ^ 15) ?t3"
    by (rule float_mul_within [OF rd b2 bp]) (simp_all add: lim)
  have "max_1 defense = PosInf \<or> (\<exists>s. max_1 defense = Fin s \<and> 1 \<le> \<bar>s\<bar>)"
    using max_1_cases [of defense] by auto
  then obtain t4 where t4: "float_div rd (Fin a) (max_1 defense) = Inr t4"
    and b4: "fin_within (10 ^ 7) t4"
    using float_div_by_large [OF rd, of "10 ^ 6" "Fin a" "max_1 defense" "10 ^ 7"] a lim by auto
  let ?t5 = "float_mul rd ?t3 t4"
  have b5: "fin_within (10 ^ 23) ?t5"
    by (rule float_mul_within [OF rd b3 b4]) (simp_all add: lim)
  obtain t6 where t6: "float_div rd ?t5 (Fin 50) = Inr t6" and b6: "fin_within (10 ^ 24) t6"
    using float_div_by_large [OF rd b5, of "Fin 50" "10 ^ 24"] lim by auto
  let ?base = "float_add rd t6 (Fin 2)"
  have bb: "fin_within (10 ^ 25) ?base"
    by (rule float_add_within [OF rd b6, of 2]) (simp_all add: lim)
  let ?t7 = "float_mul rd ?base (Fin m)"
  have b7: "fin_within (10 ^ 32) ?t7"
    by (rule float_mul_within [OF rd bb, of "10 ^ 6"]) (use m in \<open>simp_all add: lim\<close>)
  obtain rand' g' where u: "rnd_uniform R 0.85 1.0 g = (rand', g')"
    by (cases "rnd_uniform R 0.85 1.0 g")
  have rand': "\<bar>rand'\<bar> \<le> 1"
    using rand by (simp only: u fst_conv)
  let ?t8 = "float_mul rd ?t7 (Fin rand')"
  have b8: "fin_within (10 ^ 33) ?t8"
    by (rule float_mul_within [OF rd b7, of 1]) (use rand' in \<open>simp_all add: lim\<close>)
  then obtain r where r: "?t8 = Fin r"
    by (rule fin_withinE)
  have eq: "calc_damage_float rd R lv pw (Fin a) defense (Fin m) g = Inr (max 1 (py_int r), g')"
    unfolding calc_damage_float_def
    by (simp only: t1 fpw t4 t6 u r py_bind_def sum.case Let_def prod.case float_to_int_def
        py_float.case)
  have zero: "r = 0" if "m = 0"
  proof -
    from bb obtain b where b: "?base = Fin b" by (rule fin_withinE)
    have "?t7 = Fin 0"
      using that rounds_near_0 [OF rd] by (simp add: b to_double_def double_limit_def)
    then have "?t8 = Fin 0"
      using rounds_near_0 [OF rd] by (simp add: to_double_def double_limit_def)
    with r show ?thesis by simp
  qed
  have g': "snd (rnd_uniform R 0.85 1.0 g) = g'"
    by (simp only: u snd_conv)
  show ?thesis
    unfolding g' eq using zero by (simp add: py_int_def)
qed

lemma to_double_exact: "to_double (\<lambda>x. x) v = Fin r \<Longrightarrow> r = v"
  by (simp add: to_double_def split: if_splits)

lemma signed_inf_not_Fin: "signed_inf k \<noteq> Fin r"
  by (simp add: signed_inf_def)

lemma float_mul_Fin:
  assumes "float_mul rd x y = Fin r"
  shows "\<exists>a b. x = Fin a \<and> y = Fin b \<and> to_double rd (a * b) = Fin r"
  using assms by (cases x; cases y) (simp_all add: signed_inf_not_Fin)

lemma float_add_Fin:
  assumes "float_add rd x y = Fin r"
  shows "\<exists>a b. x = Fin a \<and> y = Fin b \<and> to_double rd (a + b) = Fin r"
  using assms by (cases x; cases y) simp_all

lemma float_div_Fin:
  assumes "float_div rd x (Fin b) = Inr (Fin r)"
  shows "b \<noteq> 0 \<and> (\<exists>a. x = Fin a \<and> to_double rd (a / b) = Fin r)"
  using assms by (cases x) (auto simp add: signed_inf_not_Fin split: if_splits)

lemma float_to_int_Inr:
  assumes "float_to_int x = Inr n"
  shows "\<exists>r. x = Fin r \<and> n = py_int r"
  using assms by (cases x) (simp_all add: float_to_int_def)

lemma max_1_Fin: "max_1 (Fin d) = Fin (max 1 d)"
  by (simp add: max_1_def max_def)

lemma calc_damage_float_exact:
  assumes "calc_damage_float (\<lambda>x. x) R lv pw (Fin a) (Fin d) (Fin m) g = Inr r"
  shows "r = calc_damage R lv pw a d m g"
proof -
  let ?rd = "\<lambda>x :: real. x"
  from assms obtain t1 fpw t4 t6 where
    t1: "int_truediv ?rd (2 * lv) 5 = Inr t1"
    and fpw: "float_of_int ?rd pw = Inr fpw"
    and t4: "float_div ?rd (Fin a) (max_1 (Fin d)) = Inr t4"
    and t6: "float_div ?rd (float_mul ?rd (float_mul ?rd (float_add ?rd t1 (Fin 2)) fpw) t4)
               (Fin 50) = Inr t6"
    and last: "(let base = float_add ?rd t6 (Fin 2)
        in case rnd_uniform R 0.85 1.0 g of
             (rand, g') \<Rightarrow>
               py_bind (float_to_int (float_mul ?rd (float_mul ?rd base (Fin m)) (Fin rand)))
                 (\<lambda>dmg. Inr (max 1 dmg, g'))) = Inr r"
    unfolding calc_damage_float_def py_bind_Inr by blast
  obtain rand g' where u: "rnd_uniform R 0.85 1.0 g = (rand, g')"
    by (cases "rnd_uniform R 0.85 1.0 g")
  from last obtain n where
    n: "float_to_int (float_mul ?rd (float_mul ?rd (float_add ?rd t6 (Fin 2)) (Fin m)) (Fin rand))
          = Inr n"
    and r: "r = (max 1 n, g')"
    unfolding Let_def u prod.case py_bind_Inr by auto
  from float_to_int_Inr [OF n] obtain v8 where
    m8: "float_mul ?rd (float_mul ?rd (float_add ?rd t6 (Fin 2)) (Fin m)) (Fin rand) = Fin v8"
    and nv: "n = py_int v8" by blast
  from float_mul_Fin [OF m8] obtain v7 where
    m7: "float_mul ?rd (float_add ?rd t6 (Fin 2)) (Fin m) = Fin v7"
    and v8: "v8 = v7 * rand"
    by (auto dest: to_double_exact)
  from float_mul_Fin [OF m7] obtain vb where
    ab: "float_add ?rd t6 (Fin 2) = Fin vb" and v7: "v7 = vb * m"
    by (auto dest: to_double_exact)
  from float_add_Fin [OF ab] obtain v6 where
    t6v: "t6 = Fin v6" and vb: "vb = v6 + 2"
    by (auto dest: to_double_exact)
  from float_div_Fin [OF t6 [unfolded t6v]] obtain v5 where
    m5: "float_mul ?rd (float_mul ?rd (float_add ?rd t1 (Fin 2)) fpw) t4 = Fin v5"
    and v6: "v6 = v5 / 50"
    by (auto dest: to_double_exact)
  from float_mul_Fin [OF m5] obtain v3 v4 where
    m3: "float_mul ?rd (float_add ?rd t1 (Fin 2)) fpw = Fin v3"
    and t4v: "t4 = Fin v4" and v5: "v5 = v3 * v4"
    by (auto dest: to_double_exact)
  from float_mul_Fin [OF m3] obtain v2 vp where
    a2: "float_add ?rd t1 (Fin 2) = Fin v2" and fpwv: "fpw = Fin vp" and v3: "v3 = v2 * vp"
    by (auto dest: to_double_exact)
  from float_add_Fin [OF a2] obtain v1 where
    t1v: "t1 = Fin v1" and v2: "v2 = v1 + 2"
    by (auto dest: to_double_exact)
  have v1: "v1 = real_of_int (2 * lv) / 5"
    using t1 t1v by (simp add: int_truediv_def split: if_splits)
  have vp: "vp = real_of_int pw"
    using fpw fpwv by (simp add: float_of_int_def split: if_splits)
  have v4: "v4 = a / max 1 d"
    using float_div_Fin [OF t4 [unfolded max_1_Fin t4v]] by (auto dest: to_double_exact)
  have "v8 = (((real_of_int (2 * lv) / 5 + 2) * real_of_int pw * (a / max 1 d)) / 50 + 2) * m * rand"
    by (simp only: v8 v7 vb v6 v5 v3 v2 v1 vp v4)
  then show ?thesis
    unfolding calc_damage_def Let_def u prod.case r nv by (simp only:)
qed

section \<open>Claims\<close>

text \<open>
  C1. The loop is bounded by \<^verbatim>\<open>req.max_turns or 200\<close>, and \<^verbatim>\<open>0 or 200\<close> is 200: a
  request with \<open>max_turns = 0\<close> does not return an immediate draw with an empty log. On
  the instance above it plays a turn, which ends the battle: one turn is counted, the log
  has four lines and there is a winner. (In general, \<open>turns_within_limit\<close> bounds the
  number of turns by \<open>max_turns\<close> when that is not 0, and \<open>zero_max_turns_is_200\<close> shows
  that every request with \<open>max_turns = 0\<close> plays at least one turn.)
\<close>

theorem max_turns_zero_runs_a_turn:
  "simulate_battle test_random test_upstream None (test_request\<lparr>max_turns := Some 0\<rparr>) 0 =
     Inr \<lparr>winner = Some ''charizard'', turns = 1,
          out_log = [TurnLine 1, DamageLine ''charizard'' ''inferno'' 461 2,
                     StatusLine ''shedinja'' Burn, BurnLine ''shedinja'' 4]\<rparr>"
  by code_simp




text \<open>C3, the claim as stated fails: the value is not 225.\<close>

theorem compute_hp_100_50_not_225: "compute_hp_from_base 100 50 \<noteq> 225"
  by (simp add: compute_hp_from_base_def py_int_def)


text \<open>
  C3, as the code computes it. With base HP 100 at level 50 the formula
  \<open>max(1, floor((2*100+31)*50/100 + 50 + 10))\<close> is \<open>max(1, floor(115.5 + 60))\<close>, which is
  175 and not 225.
\<close>

theorem compute_hp_100_50:
  "compute_hp_from_base 100 50 = 175 \<and>
   compute_hp_from_base 100 50 = max 1 \<lfloor>(2 * 100 + 31) * 50 / (100::real) + 50 + 10\<rfloor>"
  by (simp add: compute_hp_from_base_def py_int_def)

text \<open>
  C4, the claim as stated fails. In the instance the attacker's first hit takes the
  defender from 76 HP to 0 and burns it; \<open>test_turn1\<close> is the state at that point. The
  end-of-turn step that follows still appends the burn line of the fainted defender, and
  the line is in the log of the response.
\<close>

theorem tick_logged_for_fainted_side:
  "turn_body test_random test_ctx (init_state test_ctx 7) = end_of_turn test_ctx test_turn1 \<and>
   def_curr test_turn1 = 0 \<and> def_status test_turn1 = Some Burn \<and>
   event_log test_turn1 =
     [TurnLine 1, DamageLine ''charizard'' ''inferno'' 461 2, StatusLine ''shedinja'' Burn] \<and>
   event_log (end_of_turn test_ctx test_turn1) =
     [TurnLine 1, DamageLine ''charizard'' ''inferno'' 461 2, StatusLine ''shedinja'' Burn,
      BurnLine ''shedinja'' 4] \<and>
   simulate_battle test_random test_upstream None test_request 0 =
     Inr \<lparr>winner = Some ''charizard'', turns = 1,
          out_log = [TurnLine 1, DamageLine ''charizard'' ''inferno'' 461 2,
                     StatusLine ''shedinja'' Burn, BurnLine ''shedinja'' 4]\<rparr>"
  by code_simp


text \<open>
  C4, as the code has it. At the end of every turn both sides are processed whatever
  their current HP: a burned side's HP becomes \<open>max(0, HP - max(1, floor(maxHP/16)))\<close>, a
  poisoned side's \<open>max(0, HP - max(1, floor(maxHP/8)))\<close>, and the tick line is appended in
  both cases, for the attacker first; a side with no status or with paralysis keeps its HP
  and adds no line. For a side already at 0 HP the HP stays 0 and the line is still
  appended. (The maximum HP of a battle is at least 1, so the hypothesis always holds
  there.)
\<close>

theorem end_of_turn_ticks:
  "0 \<le> atk_hp c \<and> 0 \<le> def_hp c \<longrightarrow>
     atk_curr (end_of_turn c s) =
       (if atk_status s = Some Burn then max 0 (atk_curr s - max 1 (atk_hp c div 16))
        else if atk_status s = Some Poison then max 0 (atk_curr s - max 1 (atk_hp c div 8))
        else atk_curr s) \<and>
     def_curr (end_of_turn c s) =
       (if def_status s = Some Burn then max 0 (def_curr s - max 1 (def_hp c div 16))
        else if def_status s = Some Poison then max 0 (def_curr s - max 1 (def_hp c div 8))
        else def_curr s) \<and>
     event_log (end_of_turn c s) =
       event_log s @
       (if atk_status s = Some Burn
        then [BurnLine (p_name (attacker_data c)) (max 1 (atk_hp c div 16))]
        else if atk_status s = Some Poison
        then [PoisonLine (p_name (attacker_data c)) (max 1 (atk_hp c div 8))]
        else []) @
       (if def_status s = Some Burn
        then [BurnLine (p_name (defender_data c)) (max 1 (def_hp c div 16))]
        else if def_status s = Some Poison
        then [PoisonLine (p_name (defender_data c)) (max 1 (def_hp c div 8))]
        else [])"
proof
  assume hp: "0 \<le> atk_hp c \<and> 0 \<le> def_hp c"
  have a: "apply_eot n (atk_status s) h (atk_hp c) lg =
      (if atk_status s = Some Burn
       then (max 0 (h - max 1 (atk_hp c div 16)), lg @ [BurnLine n (max 1 (atk_hp c div 16))])
       else if atk_status s = Some Poison
       then (max 0 (h - max 1 (atk_hp c div 8)), lg @ [PoisonLine n (max 1 (atk_hp c div 8))])
       else (h, lg))" for n h lg
    using hp by (simp add: apply_eot_burn apply_eot_poison apply_eot_other)
  have d: "apply_eot n (def_status s) h (def_hp c) lg =
      (if def_status s = Some Burn
       then (max 0 (h - max 1 (def_hp c div 16)), lg @ [BurnLine n (max 1 (def_hp c div 16))])
       else if def_status s = Some Poison
       then (max 0 (h - max 1 (def_hp c div 8)), lg @ [PoisonLine n (max 1 (def_hp c div 8))])
       else (h, lg))" for n h lg
    using hp by (simp add: apply_eot_burn apply_eot_poison apply_eot_other)
  show "atk_curr (end_of_turn c s) =
       (if atk_status s = Some Burn then max 0 (atk_curr s - max 1 (atk_hp c div 16))
        else if atk_status s = Some Poison then max 0 (atk_curr s - max 1 (atk_hp c div 8))
        else atk_curr s) \<and>
     def_curr (end_of_turn c s) =
       (if def_status s = Some Burn then max 0 (def_curr s - max 1 (def_hp c div 16))
        else if def_status s = Some Poison then max 0 (def_curr s - max 1 (def_hp c div 8))
        else def_curr s) \<and>
     event_log (end_of_turn c s) =
       event_log s @
       (if atk_status s = Some Burn
        then [BurnLine (p_name (attacker_data c)) (max 1 (atk_hp c div 16))]
        else if atk_status s = Some Poison
        then [PoisonLine (p_name (attacker_data c)) (max 1 (atk_hp c div 8))]
        else []) @
       (if def_status s = Some Burn
        then [BurnLine (p_name (defender_data c)) (max 1 (def_hp c div 16))]
        else if def_status s = Some Poison
        then [PoisonLine (p_name (defender_data c)) (max 1 (def_hp c div 8))]
        else [])"
    by (simp add: end_of_turn_def a d)
qed


text \<open>The instance: the fainted, burned defender of \<open>test_turn1\<close>.\<close>

theorem end_of_turn_ticks_witness:
  "atk_curr test_turn1 = 153 \<and> atk_status test_turn1 = None \<and>
   def_curr test_turn1 = 0 \<and> def_status test_turn1 = Some Burn \<and>
   atk_curr (end_of_turn test_ctx test_turn1) = 153 \<and>
   def_curr (end_of_turn test_ctx test_turn1) = 0 \<and>
   event_log (end_of_turn test_ctx test_turn1) = event_log test_turn1 @ [BurnLine ''shedinja'' 4]"
proof -
  have c: "0 \<le> atk_hp test_ctx \<and> 0 \<le> def_hp test_ctx \<and> def_hp test_ctx = 76 \<and>
      p_name (defender_data test_ctx) = ''shedinja''"
    by code_simp
  have s: "atk_curr test_turn1 = 153 \<and> atk_status test_turn1 = None \<and>
      def_curr test_turn1 = 0 \<and> def_status test_turn1 = Some Burn"
    by code_simp
  from end_of_turn_ticks [of test_ctx test_turn1] c s show ?thesis
    by simp
qed


text \<open>
  C5, the claim as stated fails. A known move of power -10 and class physical is kept as
  a candidate and returned, so the kept moves are not those of positive power; and for a
  creature without types and without a candidate, \<^verbatim>\<open>poke['types'][0]\<close> raises
  \<^verbatim>\<open>IndexError\<close> to the caller.
\<close>

theorem select_move_negative_power_or_no_type:
  "select_move test_upstream_backfire (shedinja\<lparr>p_moves := [''backfire'']\<rparr>) None =
     Inr backfire \<and>
   m_power backfire = Some (- 10) \<and>
   select_move test_upstream (shedinja\<lparr>p_types := [], p_moves := [''growl'']\<rparr>) None =
     Inl IndexError"
  by code_simp


text \<open>
  C5, as the code has it. With no explicit move list (absent or empty): only the first 40
  known moves are looked at; the candidates are, in scan order, the moves among them that
  load and have a power that is neither null nor 0 and damage class physical or special;
  if there is a candidate, the result is one of highest power, and the first one of that
  power in scan order; if there is none and the creature has at least one type, the
  result is the synthetic move \<open>struggle\<close> (power 50, accuracy 100, the creature's first
  type, physical, no effect chance, no effect text); for a creature with at least one
  type a move is returned and nothing is raised.
\<close>

theorem select_move_fallback:
  assumes none: "provided = None \<or> provided = Some []"
  shows "select_move U poke provided =
           select_move U (poke\<lparr>p_moves := take 40 (p_moves poke)\<rparr>) provided \<and>
         scan_candidates U (take 40 (p_moves poke)) =
           filter (\<lambda>md. power_or_0 md \<noteq> 0 \<and>
                     (m_damage_class md = Some ''physical'' \<or> m_damage_class md = Some ''special''))
             (concat (map (\<lambda>n. case get_move_data U n of Inl e \<Rightarrow> [] | Inr md \<Rightarrow> [md])
                        (take 40 (p_moves poke)))) \<and>
         (scan_candidates U (take 40 (p_moves poke)) \<noteq> [] \<longrightarrow>
            (\<exists>m pre post. select_move U poke provided = Inr m \<and>
               scan_candidates U (take 40 (p_moves poke)) = pre @ m # post \<and>
               (\<forall>x\<in>set pre. power_or_0 x < power_or_0 m) \<and>
               (\<forall>x\<in>set post. power_or_0 x \<le> power_or_0 m))) \<and>
         (scan_candidates U (take 40 (p_moves poke)) = [] \<and> p_types poke \<noteq> [] \<longrightarrow>
            select_move U poke provided =
              Inr \<lparr>m_name = ''struggle'', m_power = Some 50, m_accuracy = Some 100,
                   m_type = hd (p_types poke), m_damage_class = Some ''physical'',
                   m_effect_chance = None, m_effect_entries = []\<rparr>) \<and>
         (p_types poke \<noteq> [] \<longrightarrow> (\<exists>m. select_move U poke provided = Inr m))"
proof -
  let ?cands = "scan_candidates U (take 40 (p_moves poke))"
  note fl = first_loaded_none [OF none, of U]
  have sel: "select_move U poke provided =
      (if ?cands \<noteq> [] then Inr (hd (sort_key (\<lambda>x. - power_or_0 x) ?cands))
       else (case p_types poke of [] \<Rightarrow> Inl IndexError | ty # _ \<Rightarrow> Inr (struggle ty)))"
    by (simp add: select_move_def fl Let_def)
  have sel_typed: "select_move U poke provided =
      (if ?cands \<noteq> [] then Inr (hd (sort_key (\<lambda>x. - power_or_0 x) ?cands))
       else Inr (struggle (hd (p_types poke))))" if "p_types poke \<noteq> []"
    using that by (cases "p_types poke") (simp_all add: sel)
  have 1: "select_move U poke provided =
      select_move U (poke\<lparr>p_moves := take 40 (p_moves poke)\<rparr>) provided"
    by (simp add: select_move_def fl Let_def)
  have 2: "?cands =
      filter (\<lambda>md. power_or_0 md \<noteq> 0 \<and>
                (m_damage_class md = Some ''physical'' \<or> m_damage_class md = Some ''special''))
        (concat (map (\<lambda>n. case get_move_data U n of Inl e \<Rightarrow> [] | Inr md \<Rightarrow> [md])
                   (take 40 (p_moves poke))))"
    unfolding scan_candidates_filter
    by (rule filter_cong [OF refl]) (rule is_candidate_power_or_0)
  have 3: "\<exists>m pre post. select_move U poke provided = Inr m \<and> ?cands = pre @ m # post \<and>
      (\<forall>x\<in>set pre. power_or_0 x < power_or_0 m) \<and>
      (\<forall>x\<in>set post. power_or_0 x \<le> power_or_0 m)" if ne: "?cands \<noteq> []"
  proof -
    let ?m = "hd (sort_key (\<lambda>x. - power_or_0 x) ?cands)"
    obtain pre post where "?cands = pre @ ?m # post"
      and "\<forall>x\<in>set pre. - power_or_0 ?m < - power_or_0 x"
      and "\<forall>x\<in>set post. - power_or_0 ?m \<le> - power_or_0 x"
      using hd_sort_key_first_least [OF ne, of "\<lambda>x. - power_or_0 x"] by blast
    moreover have "select_move U poke provided = Inr ?m"
      using ne by (simp add: sel)
    ultimately show ?thesis by auto
  qed
  have 4: "select_move U poke provided =
      Inr \<lparr>m_name = ''struggle'', m_power = Some 50, m_accuracy = Some 100,
           m_type = hd (p_types poke), m_damage_class = Some ''physical'',
           m_effect_chance = None, m_effect_entries = []\<rparr>"
    if "?cands = [] \<and> p_types poke \<noteq> []"
    using that by (simp add: sel_typed struggle_def)
  have 5: "\<exists>m. select_move U poke provided = Inr m" if "p_types poke \<noteq> []"
    using that by (simp add: sel_typed)
  from 1 2 3 4 5 show ?thesis by blast
qed


text \<open>The instance: charizard falls back to inferno (100) over scratch (40); a creature
  whose only known move does not load gets \<open>struggle\<close> of its first type.\<close>

theorem select_move_fallback_witness:
  "select_move test_upstream charizard None = Inr inferno \<and>
   scan_candidates test_upstream (take 40 (p_moves charizard)) = [scratch, inferno] \<and>
   select_move test_upstream (shedinja\<lparr>p_moves := [''growl'']\<rparr>) (Some []) =
     Inr \<lparr>m_name = ''struggle'', m_power = Some 50, m_accuracy = Some 100,
          m_type = ''bug'', m_damage_class = Some ''physical'',
          m_effect_chance = None, m_effect_entries = []\<rparr>"
proof -
  let ?poke = "shedinja\<lparr>p_moves := [''growl'']\<rparr>"
  let ?cands = "scan_candidates test_upstream (take 40 (p_moves charizard))"
  have c: "?cands = [scratch, inferno]"
    by code_simp
  have pw: "power_or_0 scratch = 40 \<and> power_or_0 inferno = 100"
    by code_simp
  have n: "(None :: string list option) = None \<or> None = Some []"
    by simp
  from select_move_fallback [OF n, of test_upstream charizard]
  have "?cands \<noteq> [] \<longrightarrow>
      (\<exists>m pre post. select_move test_upstream charizard None = Inr m \<and>
         ?cands = pre @ m # post \<and>
         (\<forall>x\<in>set pre. power_or_0 x < power_or_0 m) \<and>
         (\<forall>x\<in>set post. power_or_0 x \<le> power_or_0 m))"
    by (elim conjE)
  then have "\<exists>m pre post. select_move test_upstream charizard None = Inr m \<and>
         [scratch, inferno] = pre @ m # post \<and>
         (\<forall>x\<in>set pre. power_or_0 x < power_or_0 m) \<and>
         (\<forall>x\<in>set post. power_or_0 x \<le> power_or_0 m)"
    unfolding c by simp
  then obtain m pre post where m: "select_move test_upstream charizard None = Inr m"
    and split: "[scratch, inferno] = pre @ m # post"
    and pre: "\<forall>x\<in>set pre. power_or_0 x < power_or_0 m"
    and post: "\<forall>x\<in>set post. power_or_0 x \<le> power_or_0 m"
    by blast
  from split have "m = scratch \<and> post = [inferno] \<or> m = inferno"
    by (auto simp add: append_eq_Cons_conv Cons_eq_append_conv)
  with post pw have "m = inferno"
    by auto
  with m have 1: "select_move test_upstream charizard None = Inr inferno"
    by simp
  have e: "scan_candidates test_upstream (take 40 (p_moves ?poke)) = [] \<and> p_types ?poke \<noteq> []"
    by code_simp
  have hd: "hd (p_types ?poke) = ''bug''"
    by (simp add: shedinja_def)
  have n': "Some [] = (None :: string list option) \<or> Some ([] :: string list) = Some []"
    by simp
  from select_move_fallback [OF n', of test_upstream ?poke]
  have "scan_candidates test_upstream (take 40 (p_moves ?poke)) = [] \<and> p_types ?poke \<noteq> [] \<longrightarrow>
      select_move test_upstream ?poke (Some []) =
      Inr \<lparr>m_name = ''struggle'', m_power = Some 50, m_accuracy = Some 100,
           m_type = hd (p_types ?poke), m_damage_class = Some ''physical'',
           m_effect_chance = None, m_effect_entries = []\<rparr>"
    by (elim conjE)
  with e have "select_move test_upstream ?poke (Some []) =
      Inr \<lparr>m_name = ''struggle'', m_power = Some 50, m_accuracy = Some 100,
           m_type = hd (p_types ?poke), m_damage_class = Some ''physical'',
           m_effect_chance = None, m_effect_entries = []\<rparr>"
    by (rule rev_mp)
  then have 2: "select_move test_upstream ?poke (Some []) =
      Inr \<lparr>m_name = ''struggle'', m_power = Some 50, m_accuracy = Some 100,
           m_type = ''bug'', m_damage_class = Some ''physical'',
           m_effect_chance = None, m_effect_entries = []\<rparr>"
    by (simp only: hd)
  from 1 c 2 show ?thesis by blast
qed


text \<open>
  C6. A move without accuracy hits and draws nothing from the generator; a move with
  accuracy \<open>a\<close> hits exactly when the integer drawn from 1..100 is at most \<open>max(1, a)\<close>.
  When the user is not stopped by paralysis and the move misses, the action changes only
  the log (the miss line) and the generator: HP and status of both sides stay as they were.
\<close>

theorem accuracy_check:
  "hits R None g = (True, g) \<and>
   hits R (Some a) g = (fst (rnd_randint R 1 100 g) \<le> max 1 a, snd (rnd_randint R 1 100 g)) \<and>
   (\<not> fst (paralysis_skip R (atk_status s) (rng s)) \<and>
    \<not> fst (hits R (m_accuracy (atk_move c)) (snd (paralysis_skip R (atk_status s) (rng s)))) \<longrightarrow>
      attacker_action R c s =
        s\<lparr>event_log := event_log s @ [MissedLine (p_name (attacker_data c)) (m_name (atk_move c))],
          rng := snd (hits R (m_accuracy (atk_move c))
                   (snd (paralysis_skip R (atk_status s) (rng s))))\<rparr>) \<and>
   (\<not> fst (paralysis_skip R (def_status s) (rng s)) \<and>
    \<not> fst (hits R (m_accuracy (def_move c)) (snd (paralysis_skip R (def_status s) (rng s)))) \<longrightarrow>
      defender_action R c s =
        s\<lparr>event_log := event_log s @ [MissedLine (p_name (defender_data c)) (m_name (def_move c))],
          rng := snd (hits R (m_accuracy (def_move c))
                   (snd (paralysis_skip R (def_status s) (rng s))))\<rparr>)"
proof (intro conjI impI)
  show "hits R None g = (True, g)"
    by (simp add: hits_def)
  show "hits R (Some a) g =
      (fst (rnd_randint R 1 100 g) \<le> max 1 a, snd (rnd_randint R 1 100 g))"
    by (simp add: hits_def split: prod.split)
next
  assume "\<not> fst (paralysis_skip R (atk_status s) (rng s)) \<and>
    \<not> fst (hits R (m_accuracy (atk_move c)) (snd (paralysis_skip R (atk_status s) (rng s))))"
  then show "attacker_action R c s =
        s\<lparr>event_log := event_log s @ [MissedLine (p_name (attacker_data c)) (m_name (atk_move c))],
          rng := snd (hits R (m_accuracy (atk_move c))
                   (snd (paralysis_skip R (atk_status s) (rng s))))\<rparr>"
    by (simp add: attacker_action_cases)
next
  assume "\<not> fst (paralysis_skip R (def_status s) (rng s)) \<and>
    \<not> fst (hits R (m_accuracy (def_move c)) (snd (paralysis_skip R (def_status s) (rng s))))"
  then show "defender_action R c s =
        s\<lparr>event_log := event_log s @ [MissedLine (p_name (defender_data c)) (m_name (def_move c))],
          rng := snd (hits R (m_accuracy (def_move c))
                   (snd (paralysis_skip R (def_status s) (rng s))))\<rparr>"
    by (simp add: defender_action_cases)
qed


text \<open>The instance: from generator state 60 the draw is 61, and inferno (accuracy 50)
  misses for either side.\<close>

theorem accuracy_check_witness:
  "hits test_random None (60::nat) = (True, 60) \<and>
   hits test_random (Some 50) (60::nat) = (False, 61) \<and>
   attacker_action test_random test_ctx (init_state test_ctx 60) =
     \<lparr>atk_curr = 153, def_curr = 76, atk_status = None, def_status = None,
      event_log = [MissedLine ''charizard'' ''inferno''], turn = 0, rng = 61\<rparr> \<and>
   defender_action test_random (test_ctx\<lparr>def_move := inferno\<rparr>) (init_state test_ctx 60) =
     \<lparr>atk_curr = 153, def_curr = 76, atk_status = None, def_status = None,
      event_log = [MissedLine ''shedinja'' ''inferno''], turn = 0, rng = 61\<rparr>"
proof -
  let ?s = "init_state test_ctx (60::nat)"
  let ?c = "test_ctx\<lparr>def_move := inferno\<rparr>"
  note t = accuracy_check [of test_random 60 50 ?s test_ctx]
  note t' = accuracy_check [of test_random 60 50 ?s ?c]
  have r: "rnd_randint test_random 1 100 (60::nat) = (61, 61)"
    by code_simp
  have a: "\<not> fst (paralysis_skip test_random (atk_status ?s) (rng ?s)) \<and>
      \<not> fst (hits test_random (m_accuracy (atk_move test_ctx))
             (snd (paralysis_skip test_random (atk_status ?s) (rng ?s))))"
    by code_simp
  have d: "\<not> fst (paralysis_skip test_random (def_status ?s) (rng ?s)) \<and>
      \<not> fst (hits test_random (m_accuracy (def_move ?c))
             (snd (paralysis_skip test_random (def_status ?s) (rng ?s))))"
    by code_simp
  have ea: "?s\<lparr>event_log := event_log ?s @
                [MissedLine (p_name (attacker_data test_ctx)) (m_name (atk_move test_ctx))],
              rng := snd (hits test_random (m_accuracy (atk_move test_ctx))
                       (snd (paralysis_skip test_random (atk_status ?s) (rng ?s))))\<rparr> =
      \<lparr>atk_curr = 153, def_curr = 76, atk_status = None, def_status = None,
       event_log = [MissedLine ''charizard'' ''inferno''], turn = 0, rng = 61\<rparr>"
    by code_simp
  have ed: "?s\<lparr>event_log := event_log ?s @
                [MissedLine (p_name (defender_data ?c)) (m_name (def_move ?c))],
              rng := snd (hits test_random (m_accuracy (def_move ?c))
                       (snd (paralysis_skip test_random (def_status ?s) (rng ?s))))\<rparr> =
      \<lparr>atk_curr = 153, def_curr = 76, atk_status = None, def_status = None,
       event_log = [MissedLine ''shedinja'' ''inferno''], turn = 0, rng = 61\<rparr>"
    by code_simp
  from t have 1: "hits test_random None (60::nat) = (True, 60)"
    by blast
  from t have "hits test_random (Some 50) (60::nat) =
      (fst (rnd_randint test_random 1 100 (60::nat)) \<le> max 1 50,
       snd (rnd_randint test_random 1 100 (60::nat)))"
    by blast
  then have 2: "hits test_random (Some 50) (60::nat) = (False, 61)"
    by (simp add: r)
  from t a have "attacker_action test_random test_ctx ?s =
      ?s\<lparr>event_log := event_log ?s @
                [MissedLine (p_name (attacker_data test_ctx)) (m_name (atk_move test_ctx))],
              rng := snd (hits test_random (m_accuracy (atk_move test_ctx))
                       (snd (paralysis_skip test_random (atk_status ?s) (rng ?s))))\<rparr>"
    by blast
  then have 3: "attacker_action test_random test_ctx ?s =
      \<lparr>atk_curr = 153, def_curr = 76, atk_status = None, def_status = None,
       event_log = [MissedLine ''charizard'' ''inferno''], turn = 0, rng = 61\<rparr>"
    by (simp only: ea)
  from t' d have "defender_action test_random ?c ?s =
      ?s\<lparr>event_log := event_log ?s @
                [MissedLine (p_name (defender_data ?c)) (m_name (def_move ?c))],
              rng := snd (hits test_random (m_accuracy (def_move ?c))
                       (snd (paralysis_skip test_random (def_status ?s) (rng ?s))))\<rparr>"
    by blast
  then have 4: "defender_action test_random ?c ?s =
      \<lparr>atk_curr = 153, def_curr = 76, atk_status = None, def_status = None,
       event_log = [MissedLine ''shedinja'' ''inferno''], turn = 0, rng = 61\<rparr>"
    by (simp only: ed)
  from 1 2 3 4 show ?thesis by blast
qed


text \<open>
  C7. \<^verbatim>\<open>apply_status_chance\<close> returns the target's status unchanged (and draws nothing)
  when no status is detected in the move; when a status is detected, the effect chance is
  present and positive and the integer drawn from 1..100 is at most the chance, it
  returns the detected status whatever the target had; in every other case it returns the
  target's status unchanged.
\<close>

theorem status_chance:
  "(detect_status_from_move mv = None \<longrightarrow> apply_status_chance R mv ts g = (ts, g)) \<and>
   (detect_status_from_move mv = Some st \<and> m_effect_chance mv = Some ch \<and> 0 < ch \<and>
    fst (rnd_randint R 1 100 g) \<le> ch \<longrightarrow>
      fst (apply_status_chance R mv ts g) = Some st) \<and>
   (detect_status_from_move mv = Some st \<and>
    \<not> (\<exists>ch. m_effect_chance mv = Some ch \<and> 0 < ch \<and> fst (rnd_randint R 1 100 g) \<le> ch) \<longrightarrow>
      fst (apply_status_chance R mv ts g) = ts)"
  by (auto simp add: apply_status_chance_def Let_def split: prod.split option.split)


text \<open>The instance: scratch carries no status; inferno burns, with chance 100 always, with
  chance 3 not on the draw 4, and without a chance never.\<close>

theorem status_chance_witness:
  "detect_status_from_move scratch = None \<and>
   apply_status_chance test_random scratch (Some Poison) (3::nat) = (Some Poison, 3) \<and>
   detect_status_from_move inferno = Some Burn \<and>
   fst (apply_status_chance test_random inferno (Some Poison) (3::nat)) = Some Burn \<and>
   fst (apply_status_chance test_random (inferno\<lparr>m_effect_chance := Some 3\<rparr>) (Some Poison)
          (3::nat)) = Some Poison \<and>
   fst (apply_status_chance test_random (inferno\<lparr>m_effect_chance := None\<rparr>) None
          (3::nat)) = None"
proof -
  let ?low = "inferno\<lparr>m_effect_chance := Some 3\<rparr>"
  let ?none = "inferno\<lparr>m_effect_chance := None\<rparr>"
  have s0: "detect_status_from_move scratch = None"
    by code_simp
  have s1: "detect_status_from_move inferno = Some Burn \<and> m_effect_chance inferno = Some 100 \<and>
      (0::int) < 100 \<and> fst (rnd_randint test_random 1 100 (3::nat)) \<le> 100"
    by code_simp
  have s2: "detect_status_from_move ?low = Some Burn"
    by code_simp
  have s3: "\<not> (\<exists>ch. m_effect_chance ?low = Some ch \<and> 0 < ch \<and>
      fst (rnd_randint test_random 1 100 (3::nat)) \<le> ch)"
    by (simp add: inferno_def test_random_def)
  have s4: "detect_status_from_move ?none = Some Burn"
    by code_simp
  have s5: "\<not> (\<exists>ch. m_effect_chance ?none = Some ch \<and> 0 < ch \<and>
      fst (rnd_randint test_random 1 100 (3::nat)) \<le> ch)"
    by (simp add: inferno_def)
  from status_chance [where mv = scratch and R = test_random and ts = "Some Poison" and g = 3] s0
  have 1: "apply_status_chance test_random scratch (Some Poison) (3::nat) = (Some Poison, 3)"
    by blast
  from status_chance [where mv = inferno and R = test_random and ts = "Some Poison" and g = 3
      and st = Burn and ch = 100] s1
  have 2: "fst (apply_status_chance test_random inferno (Some Poison) (3::nat)) = Some Burn"
    by blast
  from status_chance [where mv = ?low and R = test_random and ts = "Some Poison" and g = 3
      and st = Burn] s2 s3
  have 3: "fst (apply_status_chance test_random ?low (Some Poison) (3::nat)) = Some Poison"
    by blast
  from status_chance [where mv = ?none and R = test_random and ts = None and g = 3
      and st = Burn] s4 s5
  have 4: "fst (apply_status_chance test_random ?none None (3::nat)) = None"
    by blast
  from s0 s1 1 2 3 4 show ?thesis by blast
qed



text \<open>
  C8, the claim as stated fails. The type ghost is in the list of known types, the load of
  its record fails, and the chart that is built has no row for ghost as an attacking type
  (while fire has one).
\<close>

theorem type_chart_row_missing:
  "fetch_types test_upstream_ghost_down = Inr test_types \<and>
   ''ghost'' \<in> set (map t_name test_types) \<and>
   (case build_type_chart test_upstream_ghost_down None of
      Inl e \<Rightarrow> False
    | Inr (chart, cache') \<Rightarrow> chart ''ghost'' = None \<and> chart ''fire'' \<noteq> None)"
  by code_simp


text \<open>
  C8, as the code has it. In a freshly built chart (which is also what is cached): every
  listed type whose record loads has a row under the record's name, and a type whose
  record fails to load is skipped; every row was filled from a loaded record of that
  name, holds every listed type name as a defending key with the multiplier the record
  declares (1.0 when the record declares none), and holds only values among 0.0, 0.5,
  1.0 and 2.0; \<^verbatim>\<open>type_multiplier\<close> reads a missing row, and a missing entry of a row,
  as 1.0.
\<close>

theorem type_chart_built:
  assumes "fetch_types U = Inr types_list"
    and "build_type_chart U None = Inr (chart, cache')"
  shows "cache' = Some chart \<and>
     (\<forall>t \<in> set types_list. \<forall>tdata. fetch_type U (t_url t) = Inr tdata \<longrightarrow>
        chart (td_name tdata) \<noteq> None) \<and>
     (\<forall>atk row. chart atk = Some row \<longrightarrow>
        (\<exists>t \<in> set types_list. \<exists>tdata. fetch_type U (t_url t) = Inr tdata \<and>
           td_name tdata = atk \<and>
           (\<forall>d \<in> set (map t_name types_list). row d = Some (declared_multiplier tdata d))) \<and>
        (\<forall>d v. row d = Some v \<longrightarrow> v = 0 \<or> v = 0.5 \<or> v = 1 \<or> v = 2)) \<and>
     (\<forall>atk d. chart atk = None \<longrightarrow> chart_get chart atk d = 1) \<and>
     (\<forall>atk row d. chart atk = Some row \<and> row d = None \<longrightarrow> chart_get chart atk d = 1) \<and>
     (\<forall>atk d. type_multiplier chart atk [d] = chart_get chart atk d)"
proof -
  from assms have chart: "chart = build_rows U (map t_name types_list) types_list Map.empty"
    and cache: "cache' = Some chart"
    by (auto simp add: build_type_chart_def Let_def)
  have keys: "\<forall>t \<in> set types_list. \<forall>tdata. fetch_type U (t_url t) = Inr tdata \<longrightarrow>
      chart (td_name tdata) \<noteq> None"
    unfolding chart by (intro ballI allI impI) (rule build_rows_loaded_key)
  have "\<forall>atk row. chart atk = Some row \<longrightarrow> row_built U types_list atk row"
    unfolding chart by (rule build_rows_built) simp_all
  then have rows: "\<forall>atk row. chart atk = Some row \<longrightarrow>
      (\<exists>t \<in> set types_list. \<exists>tdata. fetch_type U (t_url t) = Inr tdata \<and>
         td_name tdata = atk \<and>
         (\<forall>d \<in> set (map t_name types_list). row d = Some (declared_multiplier tdata d))) \<and>
      (\<forall>d v. row d = Some v \<longrightarrow> v = 0 \<or> v = 0.5 \<or> v = 1 \<or> v = 2)"
    by (simp only: row_built_def multiplier_value_def)
  have dflt: "\<forall>atk d. chart atk = None \<longrightarrow> chart_get chart atk d = 1"
    by (simp add: chart_get_def)
  have entry: "\<forall>atk row d. chart atk = Some row \<and> row d = None \<longrightarrow> chart_get chart atk d = 1"
    by (simp add: chart_get_def)
  have mult: "\<forall>atk d. type_multiplier chart atk [d] = chart_get chart atk d"
    by (simp add: type_multiplier_def)
  show ?thesis
    by (intro conjI) (fact cache keys rows dflt entry mult)+
qed


text \<open>The instance: the chart of the five types of the concrete instance.\<close>

theorem type_chart_built_witness:
  "build_type_chart test_upstream None = Inr (test_chart, Some test_chart) \<and>
   test_chart ''fire'' \<noteq> None \<and>
   chart_get test_chart ''fire'' ''bug'' = 2 \<and>
   chart_get test_chart ''fire'' ''fire'' = 0.5 \<and>
   chart_get test_chart ''fire'' ''ghost'' = 1 \<and>
   chart_get test_chart ''normal'' ''ghost'' = 0 \<and>
   chart_get test_chart ''water'' ''fire'' = 1 \<and>
   type_multiplier test_chart ''fire'' [''bug''] = 2"
proof -
  let ?fire = "\<lparr>td_name = ''fire'', double_damage_to = [''bug''], half_damage_to = [''fire''],
      no_damage_to = []\<rparr>"
  let ?ref = "\<lparr>t_name = ''fire'', t_url = ''type/10''\<rparr>"
  have ft: "fetch_types test_upstream = Inr test_types"
    by (simp add: test_upstream_def)
  have b: "build_type_chart test_upstream None = Inr (test_chart, Some test_chart)"
    by (simp only: build_type_chart_def ft option.case sum.case Let_def test_chart_def)
  note t = type_chart_built [OF ft b]
  from t have keys: "\<forall>t \<in> set test_types. \<forall>tdata.
      fetch_type test_upstream (t_url t) = Inr tdata \<longrightarrow> test_chart (td_name tdata) \<noteq> None"
    by (elim conjE)
  from t have dflt: "\<forall>atk d. test_chart atk = None \<longrightarrow> chart_get test_chart atk d = 1"
    by (elim conjE)
  from t have mult: "\<forall>atk d. type_multiplier test_chart atk [d] = chart_get test_chart atk d"
    by (elim conjE)
  have r: "?ref \<in> set test_types"
    by (simp add: test_types_def)
  have f: "fetch_type test_upstream (t_url ?ref) = Inr ?fire"
    by (simp add: test_upstream_def test_fetch_type_def)
  from keys r have "\<forall>tdata. fetch_type test_upstream (t_url ?ref) = Inr tdata \<longrightarrow>
      test_chart (td_name tdata) \<noteq> None"
    by (rule bspec)
  then have "fetch_type test_upstream (t_url ?ref) = Inr ?fire \<longrightarrow>
      test_chart (td_name ?fire) \<noteq> None"
    by (rule spec)
  with f have "test_chart (td_name ?fire) \<noteq> None"
    by (rule rev_mp)
  then have 1: "test_chart ''fire'' \<noteq> None"
    by simp
  have 2: "chart_get test_chart ''fire'' ''bug'' = 2 \<and>
      chart_get test_chart ''fire'' ''fire'' = 0.5 \<and>
      chart_get test_chart ''fire'' ''ghost'' = 1 \<and>
      chart_get test_chart ''normal'' ''ghost'' = 0"
    by code_simp
  have w: "test_chart ''water'' = None"
    by code_simp
  from dflt have "test_chart ''water'' = None \<longrightarrow> chart_get test_chart ''water'' ''fire'' = 1"
    by (elim allE)
  with w have 3: "chart_get test_chart ''water'' ''fire'' = 1"
    by (rule rev_mp)
  from mult have "type_multiplier test_chart ''fire'' [''bug''] = chart_get test_chart ''fire'' ''bug''"
    by (elim allE)
  with 2 have 4: "type_multiplier test_chart ''fire'' [''bug''] = 2"
    by simp
  from b 1 2 3 4 show ?thesis
    by (elim conjE) (intro conjI)
qed



text \<open>
  C9. The state the simulation starts in has both current HP equal to the maximum, which
  is at least 1. From every state with both current HP between 0 and the maximum, each
  step of the loop (an action of either side, the end-of-turn damage, a whole turn, the
  rest of the battle) leads to a state where both are again between 0 and the maximum and
  neither has grown; the same holds for a single \<^verbatim>\<open>apply_eot\<close>.
\<close>

theorem hp_bounded_and_non_increasing:
  fixes s :: "'g battle_state" and R :: "'g random_module" and g :: 'g
  shows "hp_in_range (make_ctx req ad dd chart am dm)
           (init_state (make_ctx req ad dd chart am dm) g) \<and>
         (hp_in_range c s \<longrightarrow>
           (\<forall>f \<in> {attacker_action R c, defender_action R c, end_of_turn c, turn_body R c,
                   battle_loop R c}.
              hp_step s (f s) \<and> hp_in_range c (f s))) \<and>
         (0 \<le> h \<longrightarrow> 0 \<le> fst (apply_eot n st h mh lg) \<and> fst (apply_eot n st h mh lg) \<le> h)"
proof (intro conjI impI ballI)
  show "hp_in_range (make_ctx req ad dd chart am dm)
           (init_state (make_ctx req ad dd chart am dm) g)"
    using make_ctx_hp [of req ad dd chart am dm] by (simp add: hp_in_range_def init_state_def)
next
  fix f
  assume r: "hp_in_range c s"
    and f: "f \<in> {attacker_action R c, defender_action R c, end_of_turn c, turn_body R c,
                   battle_loop R c}"
  from r have nn: "0 \<le> atk_curr s" "0 \<le> def_curr s"
    by (simp_all add: hp_in_range_def)
  have "hp_step s (f s)"
    using f hp_step_attacker_action [OF nn] hp_step_defender_action [OF nn]
      hp_step_end_of_turn [OF nn] hp_step_turn_body [OF nn] hp_step_battle_loop [OF nn]
    by auto
  then show "hp_step s (f s)" "hp_in_range c (f s)"
    using r by (simp_all add: hp_step_def hp_in_range_def)
next
  assume "0 \<le> h"
  then show "0 \<le> fst (apply_eot n st h mh lg)" "fst (apply_eot n st h mh lg) \<le> h"
    using apply_eot_hp [of h n st mh lg] by simp_all
qed


text \<open>The instance: the battle of the concrete instance, from its first state to its last.\<close>

theorem hp_bounded_and_non_increasing_witness:
  "hp_in_range test_ctx (init_state test_ctx (7::nat)) \<and>
   hp_step (init_state test_ctx 7) (battle_loop test_random test_ctx (init_state test_ctx 7)) \<and>
   hp_in_range test_ctx (battle_loop test_random test_ctx (init_state test_ctx 7)) \<and>
   def_curr (battle_loop test_random test_ctx (init_state test_ctx 7)) = 0 \<and>
   def_curr (init_state test_ctx (7::nat)) = 76 \<and>
   fst (apply_eot ''shedinja'' (Some Burn) 3 76 []) = 0"
proof -
  note t = hp_bounded_and_non_increasing [of test_request charizard shedinja test_chart inferno
      scratch 7 test_ctx "init_state test_ctx 7" test_random 3 "''shedinja''" "Some Burn" 76 "[]"]
  have 1: "hp_in_range test_ctx (init_state test_ctx (7::nat))"
    using t unfolding test_ctx_def by (rule conjunct1)
  have 2: "hp_step (init_state test_ctx 7) (battle_loop test_random test_ctx (init_state test_ctx 7))
     \<and> hp_in_range test_ctx (battle_loop test_random test_ctx (init_state test_ctx 7))"
    using t 1 by blast
  have 3: "def_curr (battle_loop test_random test_ctx (init_state test_ctx 7)) = 0"
    by code_simp
  have 4: "def_curr (init_state test_ctx (7::nat)) = 76"
    by code_simp
  have 5: "fst (apply_eot ''shedinja'' (Some Burn) 3 76 []) = 0"
    by code_simp
  from 1 2 3 4 5 show ?thesis by blast
qed



text \<open>
  C10, the claim as stated fails. At level 50 and power 100 an attack of \<open>10^308\<close> makes the
  product overflow: the damage is an infinity and \<^verbatim>\<open>int()\<close> raises \<^verbatim>\<open>OverflowError\<close>; with
  modifier 0.0 the product of the infinity and 0.0 is NaN and \<^verbatim>\<open>int()\<close> raises
  \<^verbatim>\<open>ValueError\<close>; and a level of \<open>10^307\<close> overflows with ordinary stats. No damage is
  returned. (The overflowing products, \<open>2200 * 10^308\<close> and \<open>(4 * 10^306 + 2) * 100\<close>,
  exceed the largest double by far, so the rounding plays no part.)
\<close>

theorem calc_damage_overflow_raises:
  "calc_damage_float (\<lambda>x. x) test_random 50 100 (Fin (10 ^ 308)) (Fin 1) (Fin 1) 9 =
     Inl OverflowError \<and>
   calc_damage_float (\<lambda>x. x) test_random 50 100 (Fin (10 ^ 308)) (Fin 1) (Fin 0) 9 =
     Inl ValueError \<and>
   calc_damage_float (\<lambda>x. x) test_random (10 ^ 307) 100 (Fin 129) (Fin 50) (Fin 1) 9 =
     Inl OverflowError"
  by (simp add: calc_damage_float_def int_truediv_def float_of_int_def max_1_def double_limit_def
      to_double_def py_bind_def float_to_int_def test_random_def signed_inf_def float_sign_def)


text \<open>
  C10, as the code has it. Whenever \<^verbatim>\<open>calc_damage\<close> returns, it returns at least 1,
  whatever the rounding; it never divides by zero, and a defense of 0 divides like a
  defense of 1. It does return when level, power, attack and modifier are at most
  \<open>10^6\<close> in magnitude (and the random factor at most 1), for every defense, and then
  with modifier 0 it returns exactly 1. When it returns under exact rounding, the value
  is that of \<open>calc_damage\<close> on the reals, which is at least 1; and in the battle an
  action that is not stopped by paralysis, hits, and uses a move of positive power takes
  at least 1 HP from a target that has any.
\<close>

theorem calc_damage_at_least_1:
  "(calc_damage_float rd R lv pw attack defense modifier g = Inr (dmg, g') \<longrightarrow> 1 \<le> dmg) \<and>
   calc_damage_float rd R lv pw attack defense modifier g \<noteq> Inl ZeroDivisionError \<and>
   calc_damage_float rd R lv pw attack (Fin 0) modifier g =
     calc_damage_float rd R lv pw attack (Fin 1) modifier g \<and>
   (rounds_near rd \<and> \<bar>lv\<bar> \<le> 10 ^ 6 \<and> \<bar>pw\<bar> \<le> 10 ^ 6 \<and> \<bar>a\<bar> \<le> 10 ^ 6 \<and> \<bar>m\<bar> \<le> 10 ^ 6 \<and>
    \<bar>fst (rnd_uniform R 0.85 1.0 g)\<bar> \<le> 1 \<longrightarrow>
      (\<exists>n. calc_damage_float rd R lv pw (Fin a) defense (Fin m) g =
              Inr (n, snd (rnd_uniform R 0.85 1.0 g)) \<and>
           1 \<le> n \<and> (m = 0 \<longrightarrow> n = 1))) \<and>
   (calc_damage_float (\<lambda>x. x) R lv pw (Fin a) (Fin d) (Fin m) g = Inr r \<longrightarrow>
      r = calc_damage R lv pw a d m g) \<and>
   1 \<le> fst (calc_damage R lv pw a d m g) \<and>
   (\<not> fst (paralysis_skip R (atk_status s) (rng s)) \<and>
    fst (hits R (m_accuracy (atk_move c)) (snd (paralysis_skip R (atk_status s) (rng s)))) \<and>
    0 < power_or_0 (atk_move c) \<and> 0 < def_curr s \<longrightarrow>
      def_curr (attacker_action R c s) \<le> def_curr s - 1) \<and>
   (\<not> fst (paralysis_skip R (def_status s) (rng s)) \<and>
    fst (hits R (m_accuracy (def_move c)) (snd (paralysis_skip R (def_status s) (rng s)))) \<and>
    0 < power_or_0 (def_move c) \<and> 0 < atk_curr s \<longrightarrow>
      atk_curr (defender_action R c s) \<le> atk_curr s - 1)"
proof (intro conjI impI)
  assume "calc_damage_float rd R lv pw attack defense modifier g = Inr (dmg, g')"
  then show "1 \<le> dmg"
    by (rule calc_damage_float_ge_1)
next
  show "calc_damage_float rd R lv pw attack defense modifier g \<noteq> Inl ZeroDivisionError"
    by (rule calc_damage_float_no_zero_division)
  show "calc_damage_float rd R lv pw attack (Fin 0) modifier g =
      calc_damage_float rd R lv pw attack (Fin 1) modifier g"
    by (rule calc_damage_float_defense_0)
  show "1 \<le> fst (calc_damage R lv pw a d m g)"
    by (rule calc_damage_ge_1)
next
  assume "rounds_near rd \<and> \<bar>lv\<bar> \<le> 10 ^ 6 \<and> \<bar>pw\<bar> \<le> 10 ^ 6 \<and> \<bar>a\<bar> \<le> 10 ^ 6 \<and> \<bar>m\<bar> \<le> 10 ^ 6 \<and>
    \<bar>fst (rnd_uniform R 0.85 1.0 g)\<bar> \<le> 1"
  then show "\<exists>n. calc_damage_float rd R lv pw (Fin a) defense (Fin m) g =
              Inr (n, snd (rnd_uniform R 0.85 1.0 g)) \<and>
           1 \<le> n \<and> (m = 0 \<longrightarrow> n = 1)"
    by (intro calc_damage_float_returns) (elim conjE, assumption)+
next
  assume "calc_damage_float (\<lambda>x. x) R lv pw (Fin a) (Fin d) (Fin m) g = Inr r"
  then show "r = calc_damage R lv pw a d m g"
    by (rule calc_damage_float_exact)
next
  assume "\<not> fst (paralysis_skip R (atk_status s) (rng s)) \<and>
    fst (hits R (m_accuracy (atk_move c)) (snd (paralysis_skip R (atk_status s) (rng s)))) \<and>
    0 < power_or_0 (atk_move c) \<and> 0 < def_curr s"
  then show "def_curr (attacker_action R c s) \<le> def_curr s - 1"
    by (intro def_curr_attacker_action_hit) simp_all
next
  assume "\<not> fst (paralysis_skip R (def_status s) (rng s)) \<and>
    fst (hits R (m_accuracy (def_move c)) (snd (paralysis_skip R (def_status s) (rng s)))) \<and>
    0 < power_or_0 (def_move c) \<and> 0 < atk_curr s"
  then show "atk_curr (defender_action R c s) \<le> atk_curr s - 1"
    by (intro atk_curr_defender_action_hit) simp_all
qed


text \<open>The instance: the first hit of the concrete battle (461), modifier 0 with defense 0
  (damage 1), and the first action of either side lowering the other side's HP.\<close>

theorem calc_damage_at_least_1_witness:
  "calc_damage_float (\<lambda>x. x) test_random 50 100 (Fin 129) (Fin 50) (Fin 4.5) 9 = Inr (461, 10) \<and>
   (1::int) \<le> 461 \<and>
   calc_damage_float (\<lambda>x. x) test_random 50 100 (Fin 129) (Fin 0) (Fin 0) 9 = Inr (1, 10) \<and>
   calc_damage test_random 50 100 129 50 4.5 9 = (461, 10) \<and>
   def_curr (init_state test_ctx (7::nat)) = 76 \<and>
   def_curr (attacker_action test_random test_ctx (init_state test_ctx 7)) \<le> 75 \<and>
   atk_curr (init_state test_ctx (7::nat)) = 153 \<and>
   atk_curr (defender_action test_random test_ctx (init_state test_ctx 7)) \<le> 152"
proof -
  let ?s = "init_state test_ctx (7::nat)"
  let ?id = "\<lambda>x :: real. x"
  note t = calc_damage_at_least_1 [where rd = ?id and R = test_random and lv = 50 and pw = 100
      and attack = "Fin 129" and defense = "Fin 50" and modifier = "Fin 4.5" and g = 9
      and dmg = 461 and g' = 10 and a = 129 and m = "4.5" and d = 50 and r = "(461, 10)"
      and s = ?s and c = test_ctx]
  note t0 = calc_damage_at_least_1 [where rd = ?id and R = test_random and lv = 50 and pw = 100
      and attack = "Fin 129" and defense = "Fin 0" and modifier = "Fin 0" and g = 9
      and dmg = 1 and g' = 10 and a = 129 and m = 0 and d = 0 and r = "(1, 10)"
      and s = ?s and c = test_ctx]
  have v: "calc_damage_float ?id test_random 50 100 (Fin 129) (Fin 50) (Fin 4.5) 9 = Inr (461, 10)"
    by (simp add: calc_damage_float_def int_truediv_def float_of_int_def max_1_def
        double_limit_def to_double_def py_bind_def float_to_int_def test_random_def py_int_def)
  from t v have 1: "(1::int) \<le> 461"
    by (elim conjE) (rule mp)
  from t v have 2: "(461, 10) = calc_damage test_random 50 100 129 50 4.5 9"
    by (elim conjE) (erule mp)
  have h: "rounds_near ?id \<and> \<bar>50::int\<bar> \<le> 10 ^ 6 \<and> \<bar>100::int\<bar> \<le> 10 ^ 6 \<and>
      \<bar>129::real\<bar> \<le> 10 ^ 6 \<and> \<bar>0::real\<bar> \<le> 10 ^ 6 \<and>
      \<bar>fst (rnd_uniform test_random 0.85 1.0 9)\<bar> \<le> 1"
    by (simp add: rounds_near_def test_random_def)
  have sn: "snd (rnd_uniform test_random 0.85 1.0 (9::nat)) = 10"
    by (simp add: test_random_def)
  from t0 have "rounds_near ?id \<and> \<bar>50::int\<bar> \<le> 10 ^ 6 \<and> \<bar>100::int\<bar> \<le> 10 ^ 6 \<and>
      \<bar>129::real\<bar> \<le> 10 ^ 6 \<and> \<bar>0::real\<bar> \<le> 10 ^ 6 \<and>
      \<bar>fst (rnd_uniform test_random 0.85 1.0 9)\<bar> \<le> 1 \<longrightarrow>
      (\<exists>n. calc_damage_float ?id test_random 50 100 (Fin 129) (Fin 0) (Fin 0) 9 =
              Inr (n, snd (rnd_uniform test_random 0.85 1.0 9)) \<and>
           1 \<le> n \<and> ((0::real) = 0 \<longrightarrow> n = 1))"
    by (elim conjE)
  with h obtain n where
    "calc_damage_float ?id test_random 50 100 (Fin 129) (Fin 0) (Fin 0) 9 =
       Inr (n, snd (rnd_uniform test_random 0.85 1.0 9))"
    and "(0::real) = 0 \<longrightarrow> n = 1"
    by blast
  then have 3: "calc_damage_float ?id test_random 50 100 (Fin 129) (Fin 0) (Fin 0) 9 = Inr (1, 10)"
    by (simp only: sn simp_thms)
  have a: "\<not> fst (paralysis_skip test_random (atk_status ?s) (rng ?s)) \<and>
      fst (hits test_random (m_accuracy (atk_move test_ctx))
             (snd (paralysis_skip test_random (atk_status ?s) (rng ?s)))) \<and>
      0 < power_or_0 (atk_move test_ctx) \<and> 0 < def_curr ?s"
    by code_simp
  have d: "\<not> fst (paralysis_skip test_random (def_status ?s) (rng ?s)) \<and>
      fst (hits test_random (m_accuracy (def_move test_ctx))
             (snd (paralysis_skip test_random (def_status ?s) (rng ?s)))) \<and>
      0 < power_or_0 (def_move test_ctx) \<and> 0 < atk_curr ?s"
    by code_simp
  have h1: "def_curr ?s = 76"
    by code_simp
  have h2: "atk_curr ?s = 153"
    by code_simp
  from t a have "def_curr (attacker_action test_random test_ctx ?s) \<le> def_curr ?s - 1"
    by blast
  with h1 have 4: "def_curr (attacker_action test_random test_ctx ?s) \<le> 75"
    by simp
  from t d have "atk_curr (defender_action test_random test_ctx ?s) \<le> atk_curr ?s - 1"
    by blast
  with h2 have 5: "atk_curr (defender_action test_random test_ctx ?s) \<le> 152"
    by simp
  from v 1 2 3 4 5 h1 h2 show ?thesis
    by (simp only: simp_thms)
qed


end
